theory Spec2Isabelle
  imports Main "HOL-Library.AList"
begin

section \<open>Relay runtime types used by the query resource\<close>

text \<open>
  The types of \<^verbatim>\<open>relay-runtime/store/RelayStoreTypes.js\<close> that
  \<^verbatim>\<open>QueryResource.js\<close> reads. GraphQL values are kept as a small
  tagged union, variables as an association list (a JavaScript object keeps its keys in
  insertion order), and AST nodes by their names.
\<close>

datatype GraphQLValue =
    VNull
  | VBool bool
  | VInt int
  | VString string
  | VList "GraphQLValue list"

type_synonym Variables = "(string \<times> GraphQLValue) list"

record RequestDescriptor =
  request_identifier :: string
  node_fragment :: string
  request_variables :: Variables

record SingularReaderSelector =
  reader_dataID :: string
  reader_node_name :: string
  reader_owner :: RequestDescriptor
  reader_variables :: Variables

record NormalizationSelector =
  norm_dataID :: string
  norm_node_name :: string
  norm_variables :: Variables

record OperationDescriptor =
  fragment :: SingularReaderSelector
  request :: RequestDescriptor
  root :: NormalizationSelector

record FragmentPointer =
  fp_id :: string
  fp_fragments :: "(string \<times> Variables) list"
  fp_fragmentOwner :: RequestDescriptor

record QueryResult =
  cacheKey :: string
  fragmentNode :: string
  fragmentRef :: FragmentPointer
  operation :: OperationDescriptor

text \<open>
  The value of a cache entry,
  \<^verbatim>\<open>Error | Promise<void> | QueryResult\<close>. A promise is known by
  the number under which the resource created it.
\<close>

datatype CacheValue =
    Promise nat
  | Error string
  | Result QueryResult

text \<open>
  What a call can throw: \<^verbatim>\<open>prepare\<close> throws the cached promise or
  the cached error, and \<^verbatim>\<open>invariant(...)\<close> throws with its
  message.
\<close>

datatype thrown =
    ThrowPromise nat
  | ThrowError string
  | InvariantViolation string

section \<open>The state of a query resource\<close>

text \<open>
  The closure variables of \<^verbatim>\<open>createQueryResourceCacheEntry\<close>. An
  entry is an object: the cache, the disposables and the timers refer to it by
  reference, so entries live in a store indexed by reference.
  \<^verbatim>\<open>retainDisposable\<close> is the handle of the store retain,
  \<^verbatim>\<open>releaseTemporaryRetain\<close> the pending release closure, known
  by the handle of the timeout it owns.
\<close>

record QueryResourceCacheEntry =
  entry_cacheKey :: string
  entry_operation :: OperationDescriptor
  currentValue :: CacheValue
  retainCount :: int
  permanentlyRetained :: bool
  retainDisposable :: "nat option"
  releaseTemporaryRetain :: "nat option"

text \<open>
  The environment as the resource uses it: \<^verbatim>\<open>check\<close> on a
  normalization selector, the \<^verbatim>\<open>isMissingData\<close> flag of
  \<^verbatim>\<open>lookup\<close> on a reader selector, and the retains that are held
  on the store, by handle.
\<close>

record Environment =
  store_check :: "NormalizationSelector \<Rightarrow> bool"
  store_isMissingData :: "SingularReaderSelector \<Rightarrow> bool"
  store_retains :: "nat \<rightharpoonup> NormalizationSelector"
  store_retainCalls :: nat

text \<open>
  The events of the fetch observable and the calls made on the optional observer
  that \<^verbatim>\<open>prepare\<close> is given, by its number; an observer that is given has each of
  the five callbacks.
\<close>

datatype NetworkEvent =
    Next
  | NetError string
  | Complete

datatype ObserverCall =
    ObsStart
  | ObsNext
  | ObsError string
  | ObsComplete
  | ObsUnsubscribe

text \<open>
  One call of \<^verbatim>\<open>fetchObservable.subscribe\<close> in
  \<^verbatim>\<open>_fetchAndSaveQuery\<close>: what its callbacks close over.
  \<^verbatim>\<open>resolveNetworkPromise\<close> is \<open>None\<close> while it is
  the initial no-op function.
\<close>

record Subscription =
  sub_cacheKey :: string
  sub_operation :: OperationDescriptor
  resolveNetworkPromise :: "nat option"
  sub_observer :: "nat option"

record QueryResource =
  environment :: Environment
  cache :: "(string \<times> nat) list"
  entries :: "nat \<Rightarrow> QueryResourceCacheEntry"
  entryCount :: nat
  timeouts :: "nat \<rightharpoonup> nat"
  timeoutCount :: nat
  resolved :: "nat \<Rightarrow> bool"
  promiseCount :: nat
  subscriptions :: "nat \<rightharpoonup> Subscription"
  subscribeCount :: nat
  observerLog :: "(nat \<times> ObserverCall) list"

text \<open>
  The two values the module reads from its surroundings:
  \<^verbatim>\<open>ExecutionEnvironment.canUseDOM\<close> and the feature flag
  \<^verbatim>\<open>RelayFeatureFlags.ENABLE_PARTIAL_RENDERING_DEFAULT\<close>.
\<close>

record Globals =
  canUseDOM :: bool
  ENABLE_PARTIAL_RENDERING_DEFAULT :: bool

definition CACHE_CAPACITY :: nat where
  "CACHE_CAPACITY = 1000"

definition DEFAULT_FETCH_POLICY :: string where
  "DEFAULT_FETCH_POLICY = ''store-or-network''"

definition DEFAULT_RENDER_POLICY :: "Globals \<Rightarrow> string" where
  "DEFAULT_RENDER_POLICY g =
     (if ENABLE_PARTIAL_RENDERING_DEFAULT g then ''partial'' else ''full'')"

section \<open>The bounded cache\<close>

text \<open>
  Modelled from the spec: \<^verbatim>\<open>LRUCache.js\<close>, which
  \<^verbatim>\<open>QueryResource.js\<close> requires, is not among the sources. The
  spec gives it a fixed maximum entry count with least-recently-used displacement. The
  list holds the most recently used key first; reading or writing a key makes it the
  most recent, and a write that exceeds the capacity drops the least recent one.
\<close>

definition lru_delete :: "string \<Rightarrow> (string \<times> 'v) list \<Rightarrow> (string \<times> 'v) list" where
  "lru_delete k c = filter (\<lambda>p. fst p \<noteq> k) c"

text \<open>
  Modelled from the spec: \<^verbatim>\<open>set\<close> of the missing \<^verbatim>\<open>LRUCache.js\<close>; the written key
  becomes the most recent, and beyond the capacity the least recent key is displaced.
\<close>

definition lru_set :: "nat \<Rightarrow> string \<Rightarrow> 'v \<Rightarrow> (string \<times> 'v) list \<Rightarrow> (string \<times> 'v) list" where
  "lru_set capacity k v c = take capacity ((k, v) # lru_delete k c)"

text \<open>
  Modelled from the spec: \<^verbatim>\<open>get\<close> of the missing \<^verbatim>\<open>LRUCache.js\<close>; a key that is
  found becomes the most recent.
\<close>

definition lru_get :: "string \<Rightarrow> (string \<times> 'v) list \<Rightarrow> 'v option \<times> (string \<times> 'v) list" where
  "lru_get k c =
     (case map_of c k of
        None \<Rightarrow> (None, c)
      | Some v \<Rightarrow> (Some v, (k, v) # lru_delete k c))"

text \<open>The three operations on \<^verbatim>\<open>this._cache\<close>, whose capacity is \<^verbatim>\<open>CACHE_CAPACITY\<close>.\<close>

definition cache_get :: "string \<Rightarrow> QueryResource \<Rightarrow> nat option \<times> QueryResource" where
  "cache_get k st =
     (case lru_get k (cache st) of (found, c) \<Rightarrow> (found, st\<lparr>cache := c\<rparr>))"

definition cache_set :: "string \<Rightarrow> nat \<Rightarrow> QueryResource \<Rightarrow> QueryResource" where
  "cache_set k a st = st\<lparr>cache := lru_set CACHE_CAPACITY k a (cache st)\<rparr>"

definition cache_delete :: "string \<Rightarrow> QueryResource \<Rightarrow> QueryResource" where
  "cache_delete k st = st\<lparr>cache := lru_delete k (cache st)\<rparr>"

section \<open>Cache keys and query results\<close>

definition getQueryCacheKey :: "OperationDescriptor \<Rightarrow> string \<Rightarrow> string \<Rightarrow> string" where
  "getQueryCacheKey op fetchPolicy renderPolicy =
     fetchPolicy @ ''-'' @ renderPolicy @ ''-'' @ request_identifier (request op)"

definition getQueryResult :: "OperationDescriptor \<Rightarrow> string \<Rightarrow> QueryResult" where
  "getQueryResult op key =
     \<lparr>cacheKey = key,
      fragmentNode = node_fragment (request op),
      fragmentRef =
        \<lparr>fp_id = reader_dataID (fragment op),
         fp_fragments = [(reader_node_name (fragment op), request_variables (request op))],
         fp_fragmentOwner = request op\<rparr>,
      operation = op\<rparr>"

section \<open>Cache entries\<close>

definition setEntry ::
  "nat \<Rightarrow> (QueryResourceCacheEntry \<Rightarrow> QueryResourceCacheEntry) \<Rightarrow> QueryResource \<Rightarrow> QueryResource" where
  "setEntry a f st = st\<lparr>entries := (entries st)(a := f (entries st a))\<rparr>"

text \<open>
  \<^verbatim>\<open>createQueryResourceCacheEntry\<close> returns a new object: the
  next free reference. Its \<^verbatim>\<open>onDispose\<close> argument is
  \<^verbatim>\<open>this._onDispose\<close> at every call site.
\<close>

definition createQueryResourceCacheEntry ::
  "string \<Rightarrow> OperationDescriptor \<Rightarrow> CacheValue \<Rightarrow> QueryResource \<Rightarrow> nat \<times> QueryResource" where
  "createQueryResourceCacheEntry key op val st =
     (entryCount st,
      st\<lparr>entries := (entries st)(entryCount st :=
            \<lparr>entry_cacheKey = key,
             entry_operation = op,
             currentValue = val,
             retainCount = 0,
             permanentlyRetained = False,
             retainDisposable = None,
             releaseTemporaryRetain = None\<rparr>),
         entryCount := entryCount st + 1\<rparr>)"

text \<open>\<^verbatim>\<open>_onDispose\<close>: an entry nobody retains leaves the cache, by its key.\<close>

definition onDispose :: "nat \<Rightarrow> QueryResource \<Rightarrow> QueryResource" where
  "onDispose a st =
     (if retainCount (entries st a) \<le> 0
      then cache_delete (entry_cacheKey (entries st a)) st
      else st)"

text \<open>\<^verbatim>\<open>environment.retain(selector)\<close> and the \<^verbatim>\<open>dispose\<close> of what it returns.\<close>

definition environment_retain :: "NormalizationSelector \<Rightarrow> Environment \<Rightarrow> nat \<times> Environment" where
  "environment_retain sel env =
     (store_retainCalls env,
      env\<lparr>store_retains := (store_retains env)(store_retainCalls env \<mapsto> sel),
          store_retainCalls := store_retainCalls env + 1\<rparr>)"

definition environment_release :: "nat \<Rightarrow> Environment \<Rightarrow> Environment" where
  "environment_release d env = env\<lparr>store_retains := (store_retains env)(d := None)\<rparr>"

text \<open>
  The closure \<^verbatim>\<open>retain\<close> of an entry. The disposable it returns
  has no state of its own, so it is the function \<open>retain_dispose\<close> of the
  entry's reference.
\<close>

definition entry_retain :: "nat \<Rightarrow> QueryResource \<Rightarrow> QueryResource" where
  "entry_retain a st =
     (let st1 = setEntry a (\<lambda>e. e\<lparr>retainCount := retainCount e + 1\<rparr>) st
      in if retainCount (entries st1 a) = 1
         then (case environment_retain (root (entry_operation (entries st1 a))) (environment st1) of
                 (d, env) \<Rightarrow>
                   setEntry a (\<lambda>e. e\<lparr>retainDisposable := Some d\<rparr>) (st1\<lparr>environment := env\<rparr>))
         else st1)"

definition retain_dispose :: "nat \<Rightarrow> QueryResource \<Rightarrow> (thrown + unit) \<times> QueryResource" where
  "retain_dispose a st =
     (let st1 = setEntry a (\<lambda>e. e\<lparr>retainCount := max 0 (retainCount e - 1)\<rparr>) st
      in if retainCount (entries st1 a) = 0
         then (case retainDisposable (entries st1 a) of
                 None \<Rightarrow>
                   (Inl (InvariantViolation ''Relay: Expected disposable to release query to be defined.''),
                    st1)
               | Some d \<Rightarrow>
                   (Inr (),
                    onDispose a
                      (setEntry a (\<lambda>e. e\<lparr>retainDisposable := None\<rparr>)
                         (st1\<lparr>environment := environment_release d (environment st1)\<rparr>))))
         else (Inr (), onDispose a st1))"

text \<open>
  \<^verbatim>\<open>localReleaseTemporaryRetain\<close>, the closure that owns timeout
  \<open>t\<close>: it clears its timeout, clears the entry's
  \<^verbatim>\<open>releaseTemporaryRetain\<close> and disposes of its retain.
\<close>

definition localReleaseTemporaryRetain ::
  "nat \<Rightarrow> nat \<Rightarrow> QueryResource \<Rightarrow> (thrown + unit) \<times> QueryResource" where
  "localReleaseTemporaryRetain t a st =
     retain_dispose a
       (setEntry a (\<lambda>e. e\<lparr>releaseTemporaryRetain := None\<rparr>)
          (st\<lparr>timeouts := (timeouts st)(t := None)\<rparr>))"

definition temporaryRetain :: "Globals \<Rightarrow> nat \<Rightarrow> QueryResource \<Rightarrow> (thrown + unit) \<times> QueryResource" where
  "temporaryRetain g a st =
     (if \<not> canUseDOM g then (Inr (), st)
      else if permanentlyRetained (entries st a) then (Inr (), st)
      else
        (let st1 = entry_retain a st;
             t = timeoutCount st1;
             st2 = st1\<lparr>timeouts := (timeouts st1)(t \<mapsto> a), timeoutCount := t + 1\<rparr>
         in case (case releaseTemporaryRetain (entries st2 a) of
                    None \<Rightarrow> (Inr (), st2)
                  | Some t' \<Rightarrow> localReleaseTemporaryRetain t' a st2) of
              (Inl x, st3) \<Rightarrow> (Inl x, st3)
            | (Inr _, st3) \<Rightarrow>
                (Inr (), setEntry a (\<lambda>e. e\<lparr>releaseTemporaryRetain := Some t\<rparr>) st3)))"

text \<open>
  \<^verbatim>\<open>permanentRetain\<close>; its disposable, too, is a function of the
  entry's reference: \<open>permanentRetain_dispose\<close>.
\<close>

definition permanentRetain :: "nat \<Rightarrow> QueryResource \<Rightarrow> (thrown + unit) \<times> QueryResource" where
  "permanentRetain a st =
     (let st1 = entry_retain a st
      in case (case releaseTemporaryRetain (entries st1 a) of
                 None \<Rightarrow> (Inr (), st1)
               | Some t \<Rightarrow>
                   (case localReleaseTemporaryRetain t a st1 of
                      (Inl x, st2) \<Rightarrow> (Inl x, st2)
                    | (Inr _, st2) \<Rightarrow>
                        (Inr (), setEntry a (\<lambda>e. e\<lparr>releaseTemporaryRetain := None\<rparr>) st2))) of
           (Inl x, st3) \<Rightarrow> (Inl x, st3)
         | (Inr _, st3) \<Rightarrow> (Inr (), setEntry a (\<lambda>e. e\<lparr>permanentlyRetained := True\<rparr>) st3))"

definition permanentRetain_dispose :: "nat \<Rightarrow> QueryResource \<Rightarrow> (thrown + unit) \<times> QueryResource" where
  "permanentRetain_dispose a st =
     (case retain_dispose a st of
        (Inl x, st1) \<Rightarrow> (Inl x, st1)
      | (Inr _, st1) \<Rightarrow> (Inr (), setEntry a (\<lambda>e. e\<lparr>permanentlyRetained := False\<rparr>) st1))"

text \<open>A timeout that is still pending expires: its closure runs.\<close>

definition timeoutExpires :: "nat \<Rightarrow> QueryResource \<Rightarrow> (thrown + unit) \<times> QueryResource" where
  "timeoutExpires t st =
     (case timeouts st t of
        None \<Rightarrow> (Inr (), st)
      | Some a \<Rightarrow> localReleaseTemporaryRetain t a st)"

section \<open>The query resource\<close>

definition cacheResult :: "OperationDescriptor \<Rightarrow> string \<Rightarrow> QueryResource \<Rightarrow> QueryResource" where
  "cacheResult op key st =
     (case createQueryResourceCacheEntry key op (Result (getQueryResult op key)) st of
        (a, st1) \<Rightarrow> cache_set key a st1)"

text \<open>
  The two variables that the \<^verbatim>\<open>switch (fetchPolicy)\<close> of
  \<^verbatim>\<open>_fetchAndSaveQuery\<close> assigns. The policy is the string that
  arrives at run time; the last case is
  \<^verbatim>\<open>case 'network-only': default:\<close>.
\<close>

definition shouldFetch :: "string \<Rightarrow> bool \<Rightarrow> bool" where
  "shouldFetch fetchPolicy hasFullQuery =
     (if fetchPolicy = ''store-only'' then False
      else if fetchPolicy = ''store-or-network'' then \<not> hasFullQuery
      else if fetchPolicy = ''store-and-network'' then True
      else True)"

definition shouldAllowRender :: "string \<Rightarrow> bool \<Rightarrow> bool" where
  "shouldAllowRender fetchPolicy canPartialRender =
     (if fetchPolicy = ''store-only'' then True
      else if fetchPolicy = ''store-or-network'' then canPartialRender
      else if fetchPolicy = ''store-and-network'' then canPartialRender
      else False)"

definition observerCall :: "nat option \<Rightarrow> ObserverCall \<Rightarrow> QueryResource \<Rightarrow> QueryResource" where
  "observerCall observer c st =
     (case observer of
        None \<Rightarrow> st
      | Some ob \<Rightarrow> st\<lparr>observerLog := observerLog st @ [(ob, c)]\<rparr>)"

definition resolvePromise :: "nat option \<Rightarrow> QueryResource \<Rightarrow> QueryResource" where
  "resolvePromise r st =
     (case r of
        None \<Rightarrow> st
      | Some p \<Rightarrow> st\<lparr>resolved := (resolved st)(p := True)\<rparr>)"

text \<open>
  The callbacks given to \<^verbatim>\<open>fetchObservable.subscribe\<close>. Each
  looks the entry up by key when it runs, and makes a new entry when the cache has none.
\<close>

definition entryForEvent ::
  "string \<Rightarrow> OperationDescriptor \<Rightarrow> CacheValue \<Rightarrow> QueryResource \<Rightarrow> nat \<times> QueryResource" where
  "entryForEvent key op val st =
     (case cache_get key st of
        (Some a, st1) \<Rightarrow> (a, st1)
      | (None, st1) \<Rightarrow> createQueryResourceCacheEntry key op val st1)"

definition onNext :: "Subscription \<Rightarrow> QueryResource \<Rightarrow> QueryResource" where
  "onNext sub st =
     (let key = sub_cacheKey sub;
          op = sub_operation sub;
          queryResult = getQueryResult op key;
          st1 =
            (if \<not> store_isMissingData (environment st) (fragment op)
             then (case entryForEvent key op (Result queryResult) st of
                     (a, st2) \<Rightarrow>
                       resolvePromise (resolveNetworkPromise sub)
                         (cache_set key a
                            (setEntry a (\<lambda>e. e\<lparr>currentValue := Result queryResult\<rparr>) st2)))
             else st)
      in observerCall (sub_observer sub) ObsNext st1)"

definition onError :: "Subscription \<Rightarrow> string \<Rightarrow> QueryResource \<Rightarrow> QueryResource" where
  "onError sub err st =
     (let key = sub_cacheKey sub;
          op = sub_operation sub
      in case entryForEvent key op (Error err) st of
           (a, st1) \<Rightarrow>
             observerCall (sub_observer sub) (ObsError err)
               (resolvePromise (resolveNetworkPromise sub)
                  (cache_set key a (setEntry a (\<lambda>e. e\<lparr>currentValue := Error err\<rparr>) st1))))"

definition onComplete :: "Subscription \<Rightarrow> QueryResource \<Rightarrow> QueryResource" where
  "onComplete sub st =
     observerCall (sub_observer sub) ObsComplete (resolvePromise (resolveNetworkPromise sub) st)"

definition onUnsubscribe :: "Subscription \<Rightarrow> QueryResource \<Rightarrow> QueryResource" where
  "onUnsubscribe sub st =
     observerCall (sub_observer sub) ObsUnsubscribe (cache_delete (sub_cacheKey sub) st)"

text \<open>
  Modelled from the spec: \<^verbatim>\<open>RelayObservable.js\<close> is not among the
  sources. The fetch boundary is a stream of value, error and completion events; after
  an error, a completion or an unsubscription the subscription is closed, and an event
  or a disposal that arrives later does nothing.
\<close>

definition closeSubscription :: "nat \<Rightarrow> QueryResource \<Rightarrow> QueryResource" where
  "closeSubscription s st = st\<lparr>subscriptions := (subscriptions st)(s := None)\<rparr>"

text \<open>
  Modelled from the spec: how the missing observable hands an event to an open
  subscription. The callbacks it runs are those of \<^verbatim>\<open>_fetchAndSaveQuery\<close>; an error
  or a completion closes the subscription.
\<close>

definition deliver :: "nat \<Rightarrow> NetworkEvent \<Rightarrow> QueryResource \<Rightarrow> QueryResource" where
  "deliver s ev st =
     (case subscriptions st s of
        None \<Rightarrow> st
      | Some sub \<Rightarrow>
          (case ev of
             Next \<Rightarrow> onNext sub st
           | NetError err \<Rightarrow> onError sub err (closeSubscription s st)
           | Complete \<Rightarrow> onComplete sub (closeSubscription s st)))"

text \<open>
  Modelled from the spec: the disposal of an open subscription, which runs the
  \<^verbatim>\<open>unsubscribe\<close> callback of \<^verbatim>\<open>_fetchAndSaveQuery\<close>.
\<close>

definition unsubscribe :: "nat \<Rightarrow> QueryResource \<Rightarrow> QueryResource" where
  "unsubscribe s st =
     (case subscriptions st s of
        None \<Rightarrow> st
      | Some sub \<Rightarrow> onUnsubscribe sub (closeSubscription s st))"

text \<open>
  Modelled from the spec: \<^verbatim>\<open>subscribe\<close> of the missing observable, as
  \<^verbatim>\<open>_fetchAndSaveQuery\<close> calls it. It registers the callbacks, calls \<^verbatim>\<open>start\<close>,
  and the observable may emit events before \<^verbatim>\<open>subscribe\<close> returns: it is given by
  the list of these events; later events arrive through \<open>deliver\<close>.
\<close>

definition subscribe ::
  "string \<Rightarrow> OperationDescriptor \<Rightarrow> NetworkEvent list \<Rightarrow> nat option \<Rightarrow> QueryResource \<Rightarrow> nat \<times> QueryResource" where
  "subscribe key op fetchObservable observer st =
     (let s = subscribeCount st;
          sub = \<lparr>sub_cacheKey = key, sub_operation = op,
                 resolveNetworkPromise = None, sub_observer = observer\<rparr>;
          st1 = observerCall observer ObsStart
                  (st\<lparr>subscriptions := (subscriptions st)(s \<mapsto> sub),
                      subscribeCount := s + 1\<rparr>)
      in (s, foldl (\<lambda>st' ev. deliver s ev st') st1 fetchObservable))"

definition newNetworkPromise :: "nat \<Rightarrow> QueryResource \<Rightarrow> nat \<times> QueryResource" where
  "newNetworkPromise s st =
     (let p = promiseCount st
      in (p,
          st\<lparr>promiseCount := p + 1,
             resolved := (resolved st)(p := False),
             subscriptions :=
               (case subscriptions st s of
                  None \<Rightarrow> subscriptions st
                | Some sub \<Rightarrow> (subscriptions st)(s \<mapsto> sub\<lparr>resolveNetworkPromise := Some p\<rparr>))\<rparr>))"

definition fetchAndSaveQuery ::
  "string \<Rightarrow> OperationDescriptor \<Rightarrow> NetworkEvent list \<Rightarrow> string \<Rightarrow> string \<Rightarrow> nat option \<Rightarrow>
     QueryResource \<Rightarrow> (thrown + nat) \<times> QueryResource" where
  "fetchAndSaveQuery key op fetchObservable fetchPolicy renderPolicy observer st =
     (let hasFullQuery = store_check (environment st) (root op);
          canPartialRender = (hasFullQuery \<or> renderPolicy = ''partial'');
          st1 = (if shouldAllowRender fetchPolicy canPartialRender
                 then cacheResult op key st else st);
          st2 =
            (if shouldFetch fetchPolicy hasFullQuery
             then (case subscribe key op fetchObservable observer st1 of
                     (s, st3) \<Rightarrow>
                       (case cache_get key st3 of
                          (Some a, st4) \<Rightarrow> st4
                        | (None, st4) \<Rightarrow>
                            (case newNetworkPromise s st4 of
                               (p, st5) \<Rightarrow>
                                 (case createQueryResourceCacheEntry key op (Promise p) st5 of
                                    (a, st6) \<Rightarrow> cache_set key a st6))))
             else observerCall observer ObsComplete st1)
      in case cache_get key st2 of
           (None, st7) \<Rightarrow>
             (Inl (InvariantViolation
                ''Relay: Expected to have cached a result when attempting to fetch query.''),
              st7)
         | (Some a, st7) \<Rightarrow> (Inr a, st7))"

text \<open>
  \<^verbatim>\<open>prepare\<close>. \<open>None\<close> is a null or undefined
  argument; a numeric cache key buster is given by the string JavaScript prints for it.
  \<open>prepareEntry\<close> is the first half of the method, which finds or creates
  the entry.
\<close>

definition prepareCacheKey ::
  "Globals \<Rightarrow> OperationDescriptor \<Rightarrow> string option \<Rightarrow> string option \<Rightarrow> string option \<Rightarrow> string" where
  "prepareCacheKey g op maybeFetchPolicy maybeRenderPolicy cacheKeyBuster =
     (let fetchPolicy = (case maybeFetchPolicy of None \<Rightarrow> DEFAULT_FETCH_POLICY | Some p \<Rightarrow> p);
          renderPolicy = (case maybeRenderPolicy of None \<Rightarrow> DEFAULT_RENDER_POLICY g | Some p \<Rightarrow> p)
      in getQueryCacheKey op fetchPolicy renderPolicy @
         (case cacheKeyBuster of None \<Rightarrow> [] | Some b \<Rightarrow> ''-'' @ b))"

definition prepareEntry ::
  "Globals \<Rightarrow> OperationDescriptor \<Rightarrow> NetworkEvent list \<Rightarrow> string option \<Rightarrow> string option \<Rightarrow>
     nat option \<Rightarrow> string option \<Rightarrow> QueryResource \<Rightarrow> (thrown + nat) \<times> QueryResource" where
  "prepareEntry g op fetchObservable maybeFetchPolicy maybeRenderPolicy observer cacheKeyBuster st =
     (let fetchPolicy = (case maybeFetchPolicy of None \<Rightarrow> DEFAULT_FETCH_POLICY | Some p \<Rightarrow> p);
          renderPolicy = (case maybeRenderPolicy of None \<Rightarrow> DEFAULT_RENDER_POLICY g | Some p \<Rightarrow> p);
          key = prepareCacheKey g op maybeFetchPolicy maybeRenderPolicy cacheKeyBuster
      in case cache_get key st of
           (Some a, st1) \<Rightarrow> (Inr a, st1)
         | (None, st1) \<Rightarrow>
             fetchAndSaveQuery key op fetchObservable fetchPolicy renderPolicy observer st1)"

text \<open>
  The end of \<^verbatim>\<open>prepare\<close>: a promise or an error is thrown, a
  result returned. The logging that \<^verbatim>\<open>_fetchAndSaveQuery\<close> does
  under \<^verbatim>\<open>__DEV__\<close> writes to the environment's logger only and
  is left out.
\<close>

definition throwOrReturn :: "CacheValue \<Rightarrow> thrown + QueryResult" where
  "throwOrReturn cachedValue =
     (case cachedValue of
        Promise p \<Rightarrow> Inl (ThrowPromise p)
      | Error err \<Rightarrow> Inl (ThrowError err)
      | Result r \<Rightarrow> Inr r)"

definition prepare ::
  "Globals \<Rightarrow> OperationDescriptor \<Rightarrow> NetworkEvent list \<Rightarrow> string option \<Rightarrow> string option \<Rightarrow>
     nat option \<Rightarrow> string option \<Rightarrow> QueryResource \<Rightarrow> (thrown + QueryResult) \<times> QueryResource" where
  "prepare g op fetchObservable maybeFetchPolicy maybeRenderPolicy observer cacheKeyBuster st =
     (case prepareEntry g op fetchObservable maybeFetchPolicy maybeRenderPolicy observer
             cacheKeyBuster st of
        (Inl x, st1) \<Rightarrow> (Inl x, st1)
      | (Inr a, st1) \<Rightarrow>
          (case temporaryRetain g a st1 of
             (Inl x, st2) \<Rightarrow> (Inl x, st2)
           | (Inr _, st2) \<Rightarrow> (throwOrReturn (currentValue (entries st2 a)), st2)))"

text \<open>
  \<^verbatim>\<open>QueryResourceImpl.retain\<close>. The disposable it returns closes
  over the entry only, so it is returned as the entry's reference and disposed of by
  \<open>disposeRetain\<close>.
\<close>

definition retain :: "QueryResult \<Rightarrow> QueryResource \<Rightarrow> (thrown + nat) \<times> QueryResource" where
  "retain queryResult st =
     (case (case cache_get (cacheKey queryResult) st of
              (Some a, st1) \<Rightarrow> (a, st1)
            | (None, st1) \<Rightarrow>
                (case createQueryResourceCacheEntry (cacheKey queryResult) (operation queryResult)
                        (Result queryResult) st1 of
                   (a, st2) \<Rightarrow> (a, cache_set (cacheKey queryResult) a st2))) of
        (a, st3) \<Rightarrow>
          (case permanentRetain a st3 of
             (Inl x, st4) \<Rightarrow> (Inl x, st4)
           | (Inr _, st4) \<Rightarrow> (Inr a, st4)))"

definition disposeRetain :: "nat \<Rightarrow> QueryResource \<Rightarrow> (thrown + unit) \<times> QueryResource" where
  "disposeRetain a st =
     (case permanentRetain_dispose a st of
        (Inl x, st1) \<Rightarrow> (Inl x, st1)
      | (Inr _, st1) \<Rightarrow> (Inr (), onDispose a st1))"

text \<open>
  \<^verbatim>\<open>createQueryResource(environment)\<close>: a resource with an empty
  cache. No entry object exists yet; the references that are not in use hold a blank
  entry.
\<close>

definition createQueryResource :: "Environment \<Rightarrow> QueryResource" where
  "createQueryResource env =
     \<lparr>environment = env,
      cache = [],
      entries = (\<lambda>_.
        \<lparr>entry_cacheKey = [],
         entry_operation =
           \<lparr>fragment = \<lparr>reader_dataID = [], reader_node_name = [],
                         reader_owner = \<lparr>request_identifier = [], node_fragment = [],
                                         request_variables = []\<rparr>,
                         reader_variables = []\<rparr>,
            request = \<lparr>request_identifier = [], node_fragment = [], request_variables = []\<rparr>,
            root = \<lparr>norm_dataID = [], norm_node_name = [], norm_variables = []\<rparr>\<rparr>,
         currentValue = Error [],
         retainCount = 0,
         permanentlyRetained = False,
         retainDisposable = None,
         releaseTemporaryRetain = None\<rparr>),
      entryCount = 0,
      timeouts = Map.empty,
      timeoutCount = 0,
      resolved = (\<lambda>_. False),
      promiseCount = 0,
      subscriptions = Map.empty,
      subscribeCount = 0,
      observerLog = []\<rparr>"

section \<open>Callers of the resource\<close>

text \<open>
  What can happen to a resource: the calls of its two methods, the disposal of a
  disposable that \<^verbatim>\<open>retain\<close> returned, the expiry of a timeout,
  an event or an unsubscription of a fetch, and a change of the store's data. A run is a
  sequence of these, each applied to the state the one before left, also when that one
  threw.
\<close>

datatype Action =
    Prepare OperationDescriptor "NetworkEvent list" "string option" "string option"
      "nat option" "string option"
  | Retain QueryResult
  | DisposeRetain nat
  | TimeoutExpires nat
  | Deliver nat NetworkEvent
  | Unsubscribe nat
  | StoreChanges "NormalizationSelector \<Rightarrow> bool" "SingularReaderSelector \<Rightarrow> bool"

fun step :: "Globals \<Rightarrow> Action \<Rightarrow> QueryResource \<Rightarrow> QueryResource" where
  "step g (Prepare op fetchObservable fp rp observer buster) st =
     snd (prepare g op fetchObservable fp rp observer buster st)"
| "step g (Retain queryResult) st = snd (retain queryResult st)"
| "step g (DisposeRetain a) st = snd (disposeRetain a st)"
| "step g (TimeoutExpires t) st = snd (timeoutExpires t st)"
| "step g (Deliver s ev) st = deliver s ev st"
| "step g (Unsubscribe s) st = unsubscribe s st"
| "step g (StoreChanges chk missing) st =
     st\<lparr>environment := (environment st)\<lparr>store_check := chk, store_isMissingData := missing\<rparr>\<rparr>"

fun run :: "Globals \<Rightarrow> Action list \<Rightarrow> QueryResource \<Rightarrow> QueryResource" where
  "run g [] st = st"
| "run g (act # acts) st = run g acts (step g act st)"

section \<open>The invariant of the retain counts\<close>

definition entry_ok :: "QueryResourceCacheEntry \<Rightarrow> bool" where
  "entry_ok e = (0 \<le> retainCount e \<and> (retainCount e = 0) = (retainDisposable e = None))"

definition retains_ok :: "QueryResource \<Rightarrow> bool" where
  "retains_ok st = (\<forall>a. entry_ok (entries st a))"

section \<open>The pagination coordinator\<close>

text \<open>
  Modelled from the spec: the pagination hook,
  \<^verbatim>\<open>useBlockingPaginationFragment.js\<close> with
  \<^verbatim>\<open>useLoadMoreFunction.js\<close> and
  \<^verbatim>\<open>getPaginationVariables.js\<close>, is not among the sources; only
  its test is. This section follows section 4.4 of the specification and the values that
  the test expects.
\<close>

text \<open>
  Modelled from the spec: the direction of \<^verbatim>\<open>loadMore\<close>; the
  hook's own type \<^verbatim>\<open>Direction\<close> of
  \<^verbatim>\<open>useLoadMoreFunction.js\<close> is missing.
\<close>

datatype Direction = Forward | Backward

text \<open>
  Modelled from the spec: the page-info of a connection (start cursor, end cursor,
  has-next, has-previous), section 3.
\<close>

record PageInfo =
  startCursor :: "string option"
  endCursor :: "string option"
  hasNextPage :: bool
  hasPreviousPage :: bool

text \<open>
  Modelled from the spec: an edge of the ordered edge list, by its cursor and the
  identifier of its node.
\<close>

record Edge =
  edge_cursor :: string
  edge_node :: string

text \<open>
  Modelled from the spec: the connection state, page-info plus the edge list, which may
  be absent.
\<close>

record Connection =
  edges :: "Edge list option"
  pageInfo :: PageInfo

text \<open>
  Modelled from the spec: the in-flight pagination request of a consumer, with the
  completion callback it was given, if any, and the callbacks of the calls that arrived
  while it was pending.
\<close>

record PaginationRequest =
  request_direction :: Direction
  pagination_variables :: Variables
  request_onComplete :: "nat option"
  request_waiting :: "nat list"

text \<open>
  Modelled from the spec: the state kept per consumer in section 4.4: whether it is
  mounted; the name of its fragment node and its fragment reference, null or a
  \<^verbatim>\<open>FragmentPointer\<close> as the test's \<^verbatim>\<open>createFragmentRef\<close> builds one; the names of
  the variables that the pagination query of the fragment declares; the connection; and
  the request in flight. With it, what the coordinator did: the variables of the fetches
  it issued, its warnings, the callbacks it scheduled and the calls of
  \<^verbatim>\<open>onComplete\<close> with their error.
\<close>

record Consumer =
  mounted :: bool
  fragmentNodeName :: string
  fragmentRef :: "FragmentPointer option"
  paginationQueryVariables :: "string list"
  connection :: Connection
  inFlight :: "PaginationRequest option"
  fetches :: "Variables list"
  warnings :: "string list"
  scheduled :: "nat list"
  completions :: "(nat \<times> string option) list"

text \<open>
  Modelled from the spec: the pending state that a render observes while a pagination
  request is in flight.
\<close>

datatype PaginationSuspend = SuspendOnPagination

text \<open>
  Modelled from the spec: the cursor argument, \<^verbatim>\<open>after\<close> forward
  and \<^verbatim>\<open>before\<close> backward.
\<close>

definition cursorArgument :: "Direction \<Rightarrow> string" where
  "cursorArgument d = (case d of Forward \<Rightarrow> ''after'' | Backward \<Rightarrow> ''before'')"

text \<open>
  Modelled from the spec: the page-size argument; the connection of the test takes
  \<^verbatim>\<open>first\<close> and \<^verbatim>\<open>last\<close>.
\<close>

definition countArgument :: "Direction \<Rightarrow> string" where
  "countArgument d = (case d of Forward \<Rightarrow> ''first'' | Backward \<Rightarrow> ''last'')"

text \<open>
  Modelled from the spec: the end cursor of the page-info forward, the start cursor
  backward.
\<close>

definition currentCursor :: "Direction \<Rightarrow> Connection \<Rightarrow> string option" where
  "currentCursor d conn =
     (case d of
        Forward \<Rightarrow> endCursor (pageInfo conn)
      | Backward \<Rightarrow> startCursor (pageInfo conn))"

text \<open>
  Modelled from the spec: \<^verbatim>\<open>hasNext\<close> and
  \<^verbatim>\<open>hasPrevious\<close>, true when the edges are present, the cursor is
  present and the flag is set.
\<close>

definition hasMore :: "Direction \<Rightarrow> Connection \<Rightarrow> bool" where
  "hasMore d conn =
     (edges conn \<noteq> None \<and> currentCursor d conn \<noteq> None \<and>
      (case d of
         Forward \<Rightarrow> hasNextPage (pageInfo conn)
       | Backward \<Rightarrow> hasPreviousPage (pageInfo conn)))"

text \<open>
  Modelled from the spec: the argument values of the consumer's fragment, which its
  fragment reference carries under the name of the fragment.
\<close>

definition fragmentVariables :: "string \<Rightarrow> FragmentPointer \<Rightarrow> Variables" where
  "fragmentVariables name ref =
     (case map_of (fp_fragments ref) name of None \<Rightarrow> [] | Some args \<Rightarrow> args)"

text \<open>
  Modelled from the spec: the base variables of step 2. They are the variables of the
  operation that owns the fragment (the test notes that the hook uses the variables
  from the fragment owner), with the argument values of the fragment over them: the test
  expects the fragment's argument \<^verbatim>\<open>isViewerFriendLocal\<close> among the pagination
  variables.
\<close>

definition baseVariables :: "string \<Rightarrow> FragmentPointer \<Rightarrow> Variables" where
  "baseVariables name ref =
     AList.merge (request_variables (fp_fragmentOwner ref)) (fragmentVariables name ref)"

text \<open>
  Modelled from the spec: \<^verbatim>\<open>getPaginationVariables.js\<close> is missing. The base
  variables, with the cursor argument overridden and the page-size argument set to the
  requested count.
\<close>

definition getPaginationVariables ::
  "Direction \<Rightarrow> int \<Rightarrow> string \<Rightarrow> Variables \<Rightarrow> Variables" where
  "getPaginationVariables d count cursor base =
     AList.update (countArgument d) (VInt count)
       (AList.update (cursorArgument d) (VString cursor) base)"

text \<open>
  Modelled from the spec: a query receives the variables that it declares, in the order
  in which it declares them; the test expects no other name among the pagination
  variables, so the operation's \<^verbatim>\<open>isViewerFriend\<close> is not among them.
\<close>

fun restrictVariables :: "string list \<Rightarrow> Variables \<Rightarrow> Variables" where
  "restrictVariables [] vars = []"
| "restrictVariables (name # names) vars =
     (case map_of vars name of
        None \<Rightarrow> restrictVariables names vars
      | Some v \<Rightarrow> (name, v) # restrictVariables names vars)"

text \<open>
  Modelled from the spec: \<^verbatim>\<open>useLoadMoreFunction.js\<close> is missing. Step 1 and 2 of
  \<^verbatim>\<open>loadMore\<close> in section 4.4: a warning and nothing else when the consumer is
  unmounted or its fragment reference is null; no fetch when a request is in flight, the
  callback waiting for that request to end; the callback scheduled when there are no
  more pages; and otherwise a fetch of the pagination query. Its variables are the
  pagination variables, with the identifier of the record that owns the connection
  field, which is the one the fragment reference points to, as \<^verbatim>\<open>id\<close>.
\<close>

definition loadMore :: "Direction \<Rightarrow> int \<Rightarrow> nat option \<Rightarrow> Consumer \<Rightarrow> Consumer" where
  "loadMore d count callback c =
     (if \<not> mounted c then
        c\<lparr>warnings := warnings c @ [''Relay: Unexpected fetch on unmounted component'']\<rparr>
      else case fragmentRef c of
        None \<Rightarrow>
          c\<lparr>warnings := warnings c @ [''Relay: Unexpected fetch while using a null fragment ref'']\<rparr>
      | Some ref \<Rightarrow>
          (case inFlight c of
             Some req \<Rightarrow>
               c\<lparr>inFlight :=
                   Some (req\<lparr>request_waiting :=
                           request_waiting req @
                           (case callback of None \<Rightarrow> [] | Some cb \<Rightarrow> [cb])\<rparr>)\<rparr>
           | None \<Rightarrow>
               (case (if hasMore d (connection c) then currentCursor d (connection c) else None) of
                  None \<Rightarrow>
                    (case callback of
                       None \<Rightarrow> c
                     | Some cb \<Rightarrow> c\<lparr>scheduled := scheduled c @ [cb]\<rparr>)
                | Some cursor \<Rightarrow>
                    (let vars =
                           restrictVariables (paginationQueryVariables c)
                             (AList.update ''id'' (VString (fp_id ref))
                                (getPaginationVariables d count cursor
                                   (baseVariables (fragmentNodeName c) ref)))
                     in c\<lparr>inFlight :=
                            Some \<lparr>request_direction = d, pagination_variables = vars,
                                  request_onComplete = callback, request_waiting = []\<rparr>,
                          fetches := fetches c @ [vars]\<rparr>))))"

text \<open>
  Modelled from the spec: the scheduler runs what was scheduled; each callback is called
  with no error.
\<close>

definition runScheduled :: "Consumer \<Rightarrow> Consumer" where
  "runScheduled c =
     c\<lparr>scheduled := [], completions := completions c @ map (\<lambda>cb. (cb, None)) (scheduled c)\<rparr>"

text \<open>
  Modelled from the spec: step 4, a forward page is appended and sets the end cursor and
  has-next, a backward page is prepended and sets the start cursor and has-previous.
\<close>

definition mergePage :: "Direction \<Rightarrow> Connection \<Rightarrow> Connection \<Rightarrow> Connection" where
  "mergePage d page conn =
     (let old = (case edges conn of None \<Rightarrow> [] | Some es \<Rightarrow> es);
          new = (case edges page of None \<Rightarrow> [] | Some es \<Rightarrow> es)
      in case d of
           Forward \<Rightarrow>
             \<lparr>edges = Some (old @ new),
              pageInfo = (pageInfo conn)\<lparr>endCursor := endCursor (pageInfo page),
                                         hasNextPage := hasNextPage (pageInfo page)\<rparr>\<rparr>
         | Backward \<Rightarrow>
             \<lparr>edges = Some (new @ old),
              pageInfo = (pageInfo conn)\<lparr>startCursor := startCursor (pageInfo page),
                                         hasPreviousPage := hasPreviousPage (pageInfo page)\<rparr>\<rparr>)"

text \<open>
  Modelled from the spec: the end of a request. Its optional
  \<^verbatim>\<open>onComplete\<close> callback is called with the error, if any, and
  the callbacks that waited for it are called with no error.
\<close>

definition invokeOnComplete :: "PaginationRequest \<Rightarrow> string option \<Rightarrow> Consumer \<Rightarrow> Consumer" where
  "invokeOnComplete req err c =
     c\<lparr>completions :=
         completions c @
         (case request_onComplete req of None \<Rightarrow> [] | Some cb \<Rightarrow> [(cb, err)]) @
         map (\<lambda>cb. (cb, None)) (request_waiting req)\<rparr>"

text \<open>
  Modelled from the spec: a page arrives for the request in flight.
\<close>

definition fetchNext :: "Connection \<Rightarrow> Consumer \<Rightarrow> Consumer" where
  "fetchNext page c =
     (case inFlight c of
        None \<Rightarrow> c
      | Some req \<Rightarrow> c\<lparr>connection := mergePage (request_direction req) page (connection c)\<rparr>)"

text \<open>
  Modelled from the spec: the fetch completes; \<^verbatim>\<open>onComplete\<close> is
  called with no error.
\<close>

definition fetchComplete :: "Consumer \<Rightarrow> Consumer" where
  "fetchComplete c =
     (case inFlight c of
        None \<Rightarrow> c
      | Some req \<Rightarrow> invokeOnComplete req None (c\<lparr>inFlight := None\<rparr>))"

text \<open>
  Modelled from the spec: step 5, the fetch fails; nothing is merged and the error goes
  to \<^verbatim>\<open>onComplete\<close>.
\<close>

definition fetchError :: "string \<Rightarrow> Consumer \<Rightarrow> Consumer" where
  "fetchError err c =
     (case inFlight c of
        None \<Rightarrow> c
      | Some req \<Rightarrow> invokeOnComplete req (Some err) (c\<lparr>inFlight := None\<rparr>))"

text \<open>
  Modelled from the spec: step 3, a render suspends while a request is in flight and
  otherwise shows the connection.
\<close>

definition render :: "Consumer \<Rightarrow> PaginationSuspend + Connection" where
  "render c = (if inFlight c \<noteq> None then Inl SuspendOnPagination else Inr (connection c))"

text \<open>
  The consumer of the test that loads more from a nested fragment. The query
  \<^verbatim>\<open>UserQueryNestedFragment\<close> is made with \<^verbatim>\<open>variablesNestedFragment\<close>, for the
  feedback \<^verbatim>\<open><feedbackid>\<close>; the fragment \<^verbatim>\<open>UserFragment\<close> is read on its actor,
  the user \<^verbatim>\<open>1\<close>, who has one friend and more to load. The query spreads the
  fragment with
  \<^verbatim>\<open>@arguments(isViewerFriendLocal: $isViewerFriend, orderby: $orderby)\<close>, which
  under these variables gives the argument values of the fragment reference. The names
  that the pagination query declares are those of the pagination variables that the
  test expects.
\<close>

definition variablesNestedFragment :: Variables where
  "variablesNestedFragment =
     [(''after'', VNull), (''first'', VInt 1), (''before'', VNull), (''last'', VNull),
      (''isViewerFriend'', VBool False), (''orderby'', VList [VString ''name'']),
      (''id'', VString ''<feedbackid>'')]"

definition nestedFragmentUserRef :: FragmentPointer where
  "nestedFragmentUserRef =
     \<lparr>fp_id = ''1'',
      fp_fragments =
        [(''UserFragment'',
          [(''isViewerFriendLocal'', VBool False), (''orderby'', VList [VString ''name''])])],
      fp_fragmentOwner =
        \<lparr>request_identifier = ''UserQueryNestedFragment'',
         node_fragment = ''UserQueryNestedFragment'',
         request_variables = variablesNestedFragment\<rparr>\<rparr>"

definition nestedFragmentUser :: Consumer where
  "nestedFragmentUser =
     \<lparr>mounted = True,
      fragmentNodeName = ''UserFragment'',
      fragmentRef = Some nestedFragmentUserRef,
      paginationQueryVariables =
        [''id'', ''after'', ''first'', ''before'', ''last'', ''isViewerFriendLocal'', ''orderby''],
      connection =
        \<lparr>edges = Some [\<lparr>edge_cursor = ''cursor:1'', edge_node = ''node:1''\<rparr>],
         pageInfo = \<lparr>startCursor = Some ''cursor:1'', endCursor = Some ''cursor:1'',
                     hasNextPage = True, hasPreviousPage = False\<rparr>\<rparr>,
      inFlight = None, fetches = [], warnings = [], scheduled = [], completions = []\<rparr>"




section \<open>Fixtures\<close>

text \<open>
  The operation and its variables that
  \<^verbatim>\<open>useBlockingPaginationFragment-test.js\<close> builds with
  \<^verbatim>\<open>createOperationDescriptor(gqlQuery, variables)\<close>, a mock
  environment whose store has either all or none of the operation's data, and the two
  execution environments.
\<close>

definition UserQuery_variables :: Variables where
  "UserQuery_variables =
     [(''after'', VNull), (''first'', VInt 1), (''before'', VNull), (''last'', VNull),
      (''isViewerFriend'', VBool False), (''orderby'', VList [VString ''name'']),
      (''id'', VString ''1'')]"

definition UserQuery :: OperationDescriptor where
  "UserQuery =
     \<lparr>fragment =
        \<lparr>reader_dataID = ''client:root'', reader_node_name = ''UserQuery'',
         reader_owner =
           \<lparr>request_identifier = ''UserQuery'', node_fragment = ''UserQuery'',
            request_variables = UserQuery_variables\<rparr>,
         reader_variables = UserQuery_variables\<rparr>,
      request =
        \<lparr>request_identifier = ''UserQuery'', node_fragment = ''UserQuery'',
         request_variables = UserQuery_variables\<rparr>,
      root =
        \<lparr>norm_dataID = ''client:root'', norm_node_name = ''UserQuery'',
         norm_variables = UserQuery_variables\<rparr>\<rparr>"

definition mockEnvironment :: "bool \<Rightarrow> Environment" where
  "mockEnvironment full =
     \<lparr>store_check = (\<lambda>_. full), store_isMissingData = (\<lambda>_. \<not> full),
      store_retains = Map.empty, store_retainCalls = 0\<rparr>"

definition browser :: Globals where
  "browser = \<lparr>canUseDOM = True, ENABLE_PARTIAL_RENDERING_DEFAULT = False\<rparr>"

definition server :: Globals where
  "server = \<lparr>canUseDOM = False, ENABLE_PARTIAL_RENDERING_DEFAULT = False\<rparr>"

definition UserQuery_cacheKey :: string where
  "UserQuery_cacheKey = ''store-or-network-full-UserQuery''"

definition UserQuery_result :: QueryResult where
  "UserQuery_result = getQueryResult UserQuery UserQuery_cacheKey"

definition rendered :: QueryResource where
  "rendered =
     snd (prepare browser UserQuery [] None None None None (createQueryResource (mockEnvironment True)))"

definition committedTwice :: QueryResource where
  "committedTwice =
     run browser [Retain UserQuery_result, Retain UserQuery_result]
       (createQueryResource (mockEnvironment True))"

section \<open>Facts about the bounded cache and the invariant\<close>

lemma map_of_lru_delete: "map_of (lru_delete k c) k' = (if k' = k then None else map_of c k')"
  unfolding lru_delete_def by (induction c) auto

lemma fst_lru_get: "fst (lru_get k c) = map_of c k"
  by (simp add: lru_get_def split: option.splits)

lemma map_of_lru_get: "map_of (snd (lru_get k c)) k' = map_of c k'"
  by (auto simp: lru_get_def map_of_lru_delete split: option.splits)

lemma map_of_lru_set_same: "0 < n \<Longrightarrow> map_of (lru_set n k v c) k = Some v"
  by (cases n) (simp_all add: lru_set_def)

lemma cache_get_eq:
  "cache_get k st = (map_of (cache st) k, st\<lparr>cache := snd (lru_get k (cache st))\<rparr>)"
  by (simp add: cache_get_def lru_get_def split: option.splits)

lemma entries_onDispose [simp]: "entries (onDispose a st) = entries st"
  by (simp add: onDispose_def cache_delete_def)

lemma entries_cache_set [simp]: "entries (cache_set k a st) = entries st"
  by (simp add: cache_set_def)

lemma entries_cache_delete [simp]: "entries (cache_delete k st) = entries st"
  by (simp add: cache_delete_def)

lemma entries_observerCall [simp]: "entries (observerCall ob c st) = entries st"
  by (simp add: observerCall_def split: option.splits)

lemma entries_resolvePromise [simp]: "entries (resolvePromise r st) = entries st"
  by (simp add: resolvePromise_def split: option.splits)

lemma entries_closeSubscription [simp]: "entries (closeSubscription s st) = entries st"
  by (simp add: closeSubscription_def)

lemma entries_setEntry [simp]:
  "entries (setEntry a f st) b = (if b = a then f (entries st a) else entries st b)"
  by (simp add: setEntry_def)

lemma retains_ok_entries: "entries st' = entries st \<Longrightarrow> retains_ok st' = retains_ok st"
  by (simp add: retains_ok_def)

lemma retains_ok_cache_set [simp]: "retains_ok (cache_set k a st) = retains_ok st"
  by (simp add: retains_ok_def cache_set_def)

lemma retains_ok_cache_delete [simp]: "retains_ok (cache_delete k st) = retains_ok st"
  by (simp add: retains_ok_def cache_delete_def)

lemma retains_ok_cache_update [simp]: "retains_ok (st\<lparr>cache := c\<rparr>) = retains_ok st"
  by (simp add: retains_ok_def)

lemma retains_ok_observerCall [simp]: "retains_ok (observerCall ob c st) = retains_ok st"
  by (simp add: retains_ok_def observerCall_def split: option.splits)

lemma retains_ok_resolvePromise [simp]: "retains_ok (resolvePromise r st) = retains_ok st"
  by (simp add: retains_ok_def resolvePromise_def split: option.splits)

lemma retains_ok_closeSubscription [simp]: "retains_ok (closeSubscription s st) = retains_ok st"
  by (simp add: retains_ok_def closeSubscription_def)

lemma retains_ok_onDispose [simp]: "retains_ok (onDispose a st) = retains_ok st"
  by (simp add: onDispose_def)

lemma retains_ok_create:
  "retains_ok st \<Longrightarrow> retains_ok (snd (createQueryResourceCacheEntry k op v st))"
  by (simp add: retains_ok_def createQueryResourceCacheEntry_def entry_ok_def)

lemma retains_ok_setValue:
  "retains_ok st \<Longrightarrow> retains_ok (setEntry a (\<lambda>e. e\<lparr>currentValue := v\<rparr>) st)"
  by (simp add: retains_ok_def setEntry_def entry_ok_def)

lemma retains_okD: "retains_ok st \<Longrightarrow> entry_ok (entries st b)"
  by (simp add: retains_ok_def)

lemma retains_okI: "(\<And>b. entry_ok (entries st b)) \<Longrightarrow> retains_ok st"
  by (simp add: retains_ok_def)

lemma retains_ok_entry_retain:
  assumes "retains_ok st"
  shows "retains_ok (entry_retain a st)"
proof (rule retains_okI)
  fix b
  show "entry_ok (entries (entry_retain a st) b)"
    using retains_okD [OF assms, of a] retains_okD [OF assms, of b]
    by (auto simp: entry_retain_def Let_def entry_ok_def environment_retain_def)
qed

lemma retains_ok_retain_dispose:
  assumes "retains_ok st"
  shows "retains_ok (snd (retain_dispose a st))"
proof (rule retains_okI)
  fix b
  show "entry_ok (entries (snd (retain_dispose a st)) b)"
    using retains_okD [OF assms, of a] retains_okD [OF assms, of b]
    by (auto simp: retain_dispose_def Let_def entry_ok_def split: option.splits)
qed

lemma retains_ok_releaseTemporaryRetain_update:
  "retains_ok st \<Longrightarrow> retains_ok (setEntry a (\<lambda>e. e\<lparr>releaseTemporaryRetain := r\<rparr>) st)"
  by (simp add: retains_ok_def entry_ok_def)

lemma retains_ok_permanentlyRetained_update:
  "retains_ok st \<Longrightarrow> retains_ok (setEntry a (\<lambda>e. e\<lparr>permanentlyRetained := r\<rparr>) st)"
  by (simp add: retains_ok_def entry_ok_def)

lemma retains_ok_timeouts_update [simp]:
  "retains_ok (st\<lparr>timeouts := ts\<rparr>) = retains_ok st"
  "retains_ok (st\<lparr>timeoutCount := n\<rparr>) = retains_ok st"
  by (simp_all add: retains_ok_def)

lemma retains_ok_localRelease:
  "retains_ok st \<Longrightarrow> retains_ok (snd (localReleaseTemporaryRetain t a st))"
  unfolding localReleaseTemporaryRetain_def
  by (intro retains_ok_retain_dispose retains_ok_releaseTemporaryRetain_update) simp

lemma retains_ok_other_updates [simp]:
  "retains_ok (st\<lparr>environment := env\<rparr>) = retains_ok st"
  "retains_ok (st\<lparr>entryCount := n\<rparr>) = retains_ok st"
  "retains_ok (st\<lparr>resolved := rs\<rparr>) = retains_ok st"
  "retains_ok (st\<lparr>promiseCount := n\<rparr>) = retains_ok st"
  "retains_ok (st\<lparr>subscriptions := ss\<rparr>) = retains_ok st"
  "retains_ok (st\<lparr>subscribeCount := n\<rparr>) = retains_ok st"
  "retains_ok (st\<lparr>observerLog := l\<rparr>) = retains_ok st"
  by (simp_all add: retains_ok_def)

lemma retains_ok_temporaryRetain:
  "retains_ok st \<Longrightarrow> retains_ok (snd (temporaryRetain g a st))"
  by (simp add: temporaryRetain_def Let_def split_beta retains_ok_entry_retain
      retains_ok_localRelease retains_ok_releaseTemporaryRetain_update
      split: option.split sum.split)

lemma retains_ok_permanentRetain:
  "retains_ok st \<Longrightarrow> retains_ok (snd (permanentRetain a st))"
  by (simp add: permanentRetain_def Let_def split_beta retains_ok_entry_retain
      retains_ok_localRelease retains_ok_releaseTemporaryRetain_update
      retains_ok_permanentlyRetained_update
      split: option.split sum.split)

lemma retains_ok_permanentRetain_dispose:
  "retains_ok st \<Longrightarrow> retains_ok (snd (permanentRetain_dispose a st))"
  by (simp add: permanentRetain_dispose_def split_beta retains_ok_retain_dispose
      retains_ok_permanentlyRetained_update split: sum.split)

lemma retains_ok_timeoutExpires:
  "retains_ok st \<Longrightarrow> retains_ok (snd (timeoutExpires t st))"
  by (simp add: timeoutExpires_def retains_ok_localRelease split: option.splits)

lemma retains_ok_disposeRetain:
  "retains_ok st \<Longrightarrow> retains_ok (snd (disposeRetain a st))"
  by (simp add: disposeRetain_def split_beta retains_ok_permanentRetain_dispose
      split: sum.split)

lemma retains_ok_entryForEvent:
  "retains_ok st \<Longrightarrow> retains_ok (snd (entryForEvent k op v st))"
  by (simp add: entryForEvent_def cache_get_eq retains_ok_create split: option.split)

lemma retains_ok_onNext: "retains_ok st \<Longrightarrow> retains_ok (onNext sub st)"
  by (simp add: onNext_def Let_def split_beta retains_ok_setValue retains_ok_entryForEvent)

lemma retains_ok_onError: "retains_ok st \<Longrightarrow> retains_ok (onError sub err st)"
  by (simp add: onError_def Let_def split_beta retains_ok_setValue retains_ok_entryForEvent)

lemma retains_ok_deliver: "retains_ok st \<Longrightarrow> retains_ok (deliver s ev st)"
  by (simp add: deliver_def onComplete_def retains_ok_onNext retains_ok_onError
      split: option.splits NetworkEvent.splits)

lemma retains_ok_unsubscribe: "retains_ok st \<Longrightarrow> retains_ok (unsubscribe s st)"
  by (simp add: unsubscribe_def onUnsubscribe_def split: option.splits)

lemma retains_ok_deliver_all:
  "retains_ok st \<Longrightarrow> retains_ok (foldl (\<lambda>st' ev. deliver s ev st') st evs)"
  by (induction evs arbitrary: st) (simp_all add: retains_ok_deliver)

lemma retains_ok_subscribe:
  "retains_ok st \<Longrightarrow> retains_ok (snd (subscribe k op evs ob st))"
  by (simp add: subscribe_def Let_def retains_ok_deliver_all)

lemma retains_ok_newNetworkPromise:
  "retains_ok st \<Longrightarrow> retains_ok (snd (newNetworkPromise s st))"
  by (simp add: newNetworkPromise_def Let_def)

lemma retains_ok_cacheResult: "retains_ok st \<Longrightarrow> retains_ok (cacheResult op k st)"
  by (simp add: cacheResult_def split_beta retains_ok_create)

lemma retains_ok_fetchAndSaveQuery:
  "retains_ok st \<Longrightarrow> retains_ok (snd (fetchAndSaveQuery k op evs fp rp ob st))"
  by (simp add: fetchAndSaveQuery_def Let_def split_beta cache_get_eq retains_ok_cacheResult
      retains_ok_create retains_ok_newNetworkPromise retains_ok_subscribe
      split: option.split)

lemma retains_ok_prepareEntry:
  "retains_ok st \<Longrightarrow> retains_ok (snd (prepareEntry g op evs fp rp ob b st))"
  by (simp add: prepareEntry_def Let_def cache_get_eq retains_ok_fetchAndSaveQuery
      split: option.split)

lemma retains_ok_prepare:
  "retains_ok st \<Longrightarrow> retains_ok (snd (prepare g op evs fp rp ob b st))"
  by (simp add: prepare_def split_beta retains_ok_prepareEntry retains_ok_temporaryRetain
      split: sum.split)

lemma retains_ok_retain: "retains_ok st \<Longrightarrow> retains_ok (snd (retain qr st))"
  by (simp add: retain_def cache_get_eq split_beta retains_ok_create retains_ok_permanentRetain
      split: sum.split option.split)

lemma retains_ok_step: "retains_ok st \<Longrightarrow> retains_ok (step g act st)"
  by (cases act)
    (simp_all add: retains_ok_prepare retains_ok_retain retains_ok_disposeRetain
      retains_ok_timeoutExpires retains_ok_deliver retains_ok_unsubscribe)

lemma retains_ok_run: "retains_ok st \<Longrightarrow> retains_ok (run g acts st)"
  by (induction acts arbitrary: st) (simp_all add: retains_ok_step)

lemma retains_ok_createQueryResource: "retains_ok (createQueryResource env)"
  by (simp add: retains_ok_def createQueryResource_def entry_ok_def)

lemma cache_set_fields [simp]:
  "environment (cache_set k a st) = environment st"
  "cache (cache_set k a st) = lru_set CACHE_CAPACITY k a (cache st)"
  "entryCount (cache_set k a st) = entryCount st"
  "timeouts (cache_set k a st) = timeouts st"
  "timeoutCount (cache_set k a st) = timeoutCount st"
  "resolved (cache_set k a st) = resolved st"
  "promiseCount (cache_set k a st) = promiseCount st"
  "subscriptions (cache_set k a st) = subscriptions st"
  "subscribeCount (cache_set k a st) = subscribeCount st"
  "observerLog (cache_set k a st) = observerLog st"
  by (simp_all add: cache_set_def)

lemma cache_delete_fields [simp]:
  "environment (cache_delete k st) = environment st"
  "cache (cache_delete k st) = lru_delete k (cache st)"
  "entryCount (cache_delete k st) = entryCount st"
  "timeouts (cache_delete k st) = timeouts st"
  "timeoutCount (cache_delete k st) = timeoutCount st"
  "resolved (cache_delete k st) = resolved st"
  "promiseCount (cache_delete k st) = promiseCount st"
  "subscriptions (cache_delete k st) = subscriptions st"
  "subscribeCount (cache_delete k st) = subscribeCount st"
  "observerLog (cache_delete k st) = observerLog st"
  by (simp_all add: cache_delete_def)

lemma cache_get_fields [simp]:
  "fst (cache_get k st) = map_of (cache st) k"
  "environment (snd (cache_get k st)) = environment st"
  "cache (snd (cache_get k st)) = snd (lru_get k (cache st))"
  "entries (snd (cache_get k st)) = entries st"
  "entryCount (snd (cache_get k st)) = entryCount st"
  "timeouts (snd (cache_get k st)) = timeouts st"
  "timeoutCount (snd (cache_get k st)) = timeoutCount st"
  "resolved (snd (cache_get k st)) = resolved st"
  "promiseCount (snd (cache_get k st)) = promiseCount st"
  "subscriptions (snd (cache_get k st)) = subscriptions st"
  "subscribeCount (snd (cache_get k st)) = subscribeCount st"
  "observerLog (snd (cache_get k st)) = observerLog st"
  by (simp_all add: cache_get_eq)

lemma observerCall_fields [simp]:
  "environment (observerCall ob c st) = environment st"
  "cache (observerCall ob c st) = cache st"
  "entryCount (observerCall ob c st) = entryCount st"
  "timeouts (observerCall ob c st) = timeouts st"
  "timeoutCount (observerCall ob c st) = timeoutCount st"
  "resolved (observerCall ob c st) = resolved st"
  "promiseCount (observerCall ob c st) = promiseCount st"
  "subscriptions (observerCall ob c st) = subscriptions st"
  "subscribeCount (observerCall ob c st) = subscribeCount st"
  by (simp_all add: observerCall_def split: option.split)

lemma resolvePromise_fields [simp]:
  "environment (resolvePromise r st) = environment st"
  "cache (resolvePromise r st) = cache st"
  "entryCount (resolvePromise r st) = entryCount st"
  "timeouts (resolvePromise r st) = timeouts st"
  "timeoutCount (resolvePromise r st) = timeoutCount st"
  "promiseCount (resolvePromise r st) = promiseCount st"
  "subscriptions (resolvePromise r st) = subscriptions st"
  "subscribeCount (resolvePromise r st) = subscribeCount st"
  "observerLog (resolvePromise r st) = observerLog st"
  by (simp_all add: resolvePromise_def split: option.split)

lemma closeSubscription_fields [simp]:
  "environment (closeSubscription s st) = environment st"
  "cache (closeSubscription s st) = cache st"
  "entryCount (closeSubscription s st) = entryCount st"
  "timeouts (closeSubscription s st) = timeouts st"
  "timeoutCount (closeSubscription s st) = timeoutCount st"
  "resolved (closeSubscription s st) = resolved st"
  "promiseCount (closeSubscription s st) = promiseCount st"
  "subscriptions (closeSubscription s st) = (subscriptions st)(s := None)"
  "subscribeCount (closeSubscription s st) = subscribeCount st"
  "observerLog (closeSubscription s st) = observerLog st"
  by (simp_all add: closeSubscription_def)

lemma setEntry_fields [simp]:
  "environment (setEntry a f st) = environment st"
  "cache (setEntry a f st) = cache st"
  "entryCount (setEntry a f st) = entryCount st"
  "timeouts (setEntry a f st) = timeouts st"
  "timeoutCount (setEntry a f st) = timeoutCount st"
  "resolved (setEntry a f st) = resolved st"
  "promiseCount (setEntry a f st) = promiseCount st"
  "subscriptions (setEntry a f st) = subscriptions st"
  "subscribeCount (setEntry a f st) = subscribeCount st"
  "observerLog (setEntry a f st) = observerLog st"
  by (simp_all add: setEntry_def)

lemma create_fields [simp]:
  "fst (createQueryResourceCacheEntry k op v st) = entryCount st"
  "environment (snd (createQueryResourceCacheEntry k op v st)) = environment st"
  "cache (snd (createQueryResourceCacheEntry k op v st)) = cache st"
  "entries (snd (createQueryResourceCacheEntry k op v st)) b =
     (if b = entryCount st
      then \<lparr>entry_cacheKey = k, entry_operation = op, currentValue = v, retainCount = 0,
            permanentlyRetained = False, retainDisposable = None,
            releaseTemporaryRetain = None\<rparr>
      else entries st b)"
  "entryCount (snd (createQueryResourceCacheEntry k op v st)) = entryCount st + 1"
  "timeouts (snd (createQueryResourceCacheEntry k op v st)) = timeouts st"
  "timeoutCount (snd (createQueryResourceCacheEntry k op v st)) = timeoutCount st"
  "resolved (snd (createQueryResourceCacheEntry k op v st)) = resolved st"
  "promiseCount (snd (createQueryResourceCacheEntry k op v st)) = promiseCount st"
  "subscriptions (snd (createQueryResourceCacheEntry k op v st)) = subscriptions st"
  "subscribeCount (snd (createQueryResourceCacheEntry k op v st)) = subscribeCount st"
  "observerLog (snd (createQueryResourceCacheEntry k op v st)) = observerLog st"
  by (simp_all add: createQueryResourceCacheEntry_def)

lemma newNetworkPromise_fields [simp]:
  "fst (newNetworkPromise s st) = promiseCount st"
  "environment (snd (newNetworkPromise s st)) = environment st"
  "cache (snd (newNetworkPromise s st)) = cache st"
  "entries (snd (newNetworkPromise s st)) = entries st"
  "entryCount (snd (newNetworkPromise s st)) = entryCount st"
  "timeouts (snd (newNetworkPromise s st)) = timeouts st"
  "timeoutCount (snd (newNetworkPromise s st)) = timeoutCount st"
  "resolved (snd (newNetworkPromise s st)) = (resolved st)(promiseCount st := False)"
  "promiseCount (snd (newNetworkPromise s st)) = promiseCount st + 1"
  "subscribeCount (snd (newNetworkPromise s st)) = subscribeCount st"
  "observerLog (snd (newNetworkPromise s st)) = observerLog st"
  by (simp_all add: newNetworkPromise_def Let_def)

lemma map_of_lru_set_cap [simp]: "map_of (lru_set CACHE_CAPACITY k a c) k = Some a"
  by (simp add: map_of_lru_set_same CACHE_CAPACITY_def)

lemma map_of_lru_get_simp [simp]: "map_of (snd (lru_get k c)) = map_of c"
  by (rule ext) (rule map_of_lru_get)

lemma cacheResult_fields [simp]:
  "environment (cacheResult op k st) = environment st"
  "cache (cacheResult op k st) = lru_set CACHE_CAPACITY k (entryCount st) (cache st)"
  "entries (cacheResult op k st) b =
     (if b = entryCount st
      then \<lparr>entry_cacheKey = k, entry_operation = op,
            currentValue = Result (getQueryResult op k), retainCount = 0,
            permanentlyRetained = False, retainDisposable = None,
            releaseTemporaryRetain = None\<rparr>
      else entries st b)"
  "entryCount (cacheResult op k st) = entryCount st + 1"
  "timeouts (cacheResult op k st) = timeouts st"
  "timeoutCount (cacheResult op k st) = timeoutCount st"
  "resolved (cacheResult op k st) = resolved st"
  "promiseCount (cacheResult op k st) = promiseCount st"
  "subscriptions (cacheResult op k st) = subscriptions st"
  "subscribeCount (cacheResult op k st) = subscribeCount st"
  "observerLog (cacheResult op k st) = observerLog st"
  by (simp_all add: cacheResult_def split_beta)

lemma entryForEvent_fields [simp]:
  "fst (entryForEvent k op v st) = (case map_of (cache st) k of Some a \<Rightarrow> a | None \<Rightarrow> entryCount st)"
  "environment (snd (entryForEvent k op v st)) = environment st"
  "cache (snd (entryForEvent k op v st)) = snd (lru_get k (cache st))"
  "timeouts (snd (entryForEvent k op v st)) = timeouts st"
  "timeoutCount (snd (entryForEvent k op v st)) = timeoutCount st"
  "resolved (snd (entryForEvent k op v st)) = resolved st"
  "promiseCount (snd (entryForEvent k op v st)) = promiseCount st"
  "subscriptions (snd (entryForEvent k op v st)) = subscriptions st"
  "subscribeCount (snd (entryForEvent k op v st)) = subscribeCount st"
  "observerLog (snd (entryForEvent k op v st)) = observerLog st"
  by (simp_all add: entryForEvent_def split_beta split: option.split)

lemma entryForEvent_entries:
  "entries (snd (entryForEvent k op v st)) b =
     (case map_of (cache st) k of
        Some a \<Rightarrow> entries st b
      | None \<Rightarrow>
          (if b = entryCount st
           then \<lparr>entry_cacheKey = k, entry_operation = op, currentValue = v, retainCount = 0,
                 permanentlyRetained = False, retainDisposable = None,
                 releaseTemporaryRetain = None\<rparr>
           else entries st b))"
  by (simp add: entryForEvent_def split_beta split: option.split)

lemma deliver_counts [simp]:
  "subscribeCount (deliver s ev st) = subscribeCount st"
  "timeoutCount (deliver s ev st) = timeoutCount st"
  "timeouts (deliver s ev st) = timeouts st"
  "promiseCount (deliver s ev st) = promiseCount st"
  "environment (deliver s ev st) = environment st"
  by (simp_all add: deliver_def onNext_def onError_def onComplete_def Let_def split_beta
      split: option.split NetworkEvent.split)

lemma deliver_all_counts [simp]:
  "subscribeCount (foldl (\<lambda>st' ev. deliver s ev st') st evs) = subscribeCount st"
  "promiseCount (foldl (\<lambda>st' ev. deliver s ev st') st evs) = promiseCount st"
  "environment (foldl (\<lambda>st' ev. deliver s ev st') st evs) = environment st"
  by (induction evs arbitrary: st) simp_all

lemma subscribe_counts [simp]:
  "fst (subscribe k op evs ob st) = subscribeCount st"
  "subscribeCount (snd (subscribe k op evs ob st)) = subscribeCount st + 1"
  "promiseCount (snd (subscribe k op evs ob st)) = promiseCount st"
  "environment (snd (subscribe k op evs ob st)) = environment st"
  by (simp_all add: subscribe_def Let_def)

lemma subscribe_silent [simp]:
  "cache (snd (subscribe k op [] ob st)) = cache st"
  "entries (snd (subscribe k op [] ob st)) = entries st"
  "entryCount (snd (subscribe k op [] ob st)) = entryCount st"
  "subscriptions (snd (subscribe k op [] ob st)) =
     (subscriptions st)(subscribeCount st \<mapsto>
        \<lparr>sub_cacheKey = k, sub_operation = op, resolveNetworkPromise = None, sub_observer = ob\<rparr>)"
  by (simp_all add: subscribe_def Let_def)

lemma fetchAndSaveQuery_subscribeCount:
  "subscribeCount (snd (fetchAndSaveQuery key op evs fp rp ob st)) =
     subscribeCount st + (if shouldFetch fp (store_check (environment st) (root op)) then 1 else 0)"
  by (simp add: fetchAndSaveQuery_def Let_def split_beta split: option.split)

lemma not_allowed_fetches:
  "\<not> shouldAllowRender fp (full \<or> q) \<Longrightarrow> shouldFetch fp full"
  by (auto simp: shouldAllowRender_def shouldFetch_def split: if_splits)

lemma fetchAndSaveQuery_render:
  assumes "map_of (cache st) key = None"
    and "shouldAllowRender fp (store_check (environment st) (root op) \<or> rp = ''partial'')"
  shows "fst (fetchAndSaveQuery key op [] fp rp ob st) = Inr (entryCount st)"
    and "entries (snd (fetchAndSaveQuery key op [] fp rp ob st)) (entryCount st) =
          \<lparr>entry_cacheKey = key, entry_operation = op,
            currentValue = Result (getQueryResult op key), retainCount = 0,
            permanentlyRetained = False, retainDisposable = None,
            releaseTemporaryRetain = None\<rparr>"
  using assms
  by (simp_all add: fetchAndSaveQuery_def Let_def split_beta split: option.split)

lemma fetchAndSaveQuery_suspend:
  assumes "map_of (cache st) key = None"
    and "\<not> shouldAllowRender fp (store_check (environment st) (root op) \<or> rp = ''partial'')"
  shows "fst (fetchAndSaveQuery key op [] fp rp ob st) = Inr (entryCount st)"
    and "entries (snd (fetchAndSaveQuery key op [] fp rp ob st)) (entryCount st) =
          \<lparr>entry_cacheKey = key, entry_operation = op,
            currentValue = Promise (promiseCount st), retainCount = 0,
            permanentlyRetained = False, retainDisposable = None,
            releaseTemporaryRetain = None\<rparr>"
  using assms not_allowed_fetches [of fp "store_check (environment st) (root op)" "rp = ''partial''"]
  by (simp_all add: fetchAndSaveQuery_def Let_def split_beta split: option.split)

lemma onDispose_fields [simp]:
  "environment (onDispose a st) = environment st"
  "cache (onDispose a st) =
     (if retainCount (entries st a) \<le> 0 then lru_delete (entry_cacheKey (entries st a)) (cache st)
      else cache st)"
  "entryCount (onDispose a st) = entryCount st"
  "timeouts (onDispose a st) = timeouts st"
  "timeoutCount (onDispose a st) = timeoutCount st"
  "resolved (onDispose a st) = resolved st"
  "promiseCount (onDispose a st) = promiseCount st"
  "subscriptions (onDispose a st) = subscriptions st"
  "subscribeCount (onDispose a st) = subscribeCount st"
  "observerLog (onDispose a st) = observerLog st"
  by (simp_all add: onDispose_def)

lemma entry_retain_fields [simp]:
  "cache (entry_retain a st) = cache st"
  "entryCount (entry_retain a st) = entryCount st"
  "timeouts (entry_retain a st) = timeouts st"
  "timeoutCount (entry_retain a st) = timeoutCount st"
  "resolved (entry_retain a st) = resolved st"
  "promiseCount (entry_retain a st) = promiseCount st"
  "subscriptions (entry_retain a st) = subscriptions st"
  "subscribeCount (entry_retain a st) = subscribeCount st"
  "observerLog (entry_retain a st) = observerLog st"
  by (simp_all add: entry_retain_def Let_def split_beta)

lemma entry_retain_environment:
  "environment (entry_retain a st) =
     (if retainCount (entries st a) = 0
      then snd (environment_retain (root (entry_operation (entries st a))) (environment st))
      else environment st)"
  by (simp add: entry_retain_def Let_def split_beta)

lemma entry_retain_entries:
  "entries (entry_retain a st) b =
     (if b = a
      then (entries st a)
             \<lparr>retainCount := retainCount (entries st a) + 1,
              retainDisposable :=
                (if retainCount (entries st a) = 0 then Some (store_retainCalls (environment st))
                 else retainDisposable (entries st a))\<rparr>
      else entries st b)"
  by (simp add: entry_retain_def Let_def split_beta environment_retain_def)

lemma retain_dispose_fields [simp]:
  "entryCount (snd (retain_dispose a st)) = entryCount st"
  "timeouts (snd (retain_dispose a st)) = timeouts st"
  "timeoutCount (snd (retain_dispose a st)) = timeoutCount st"
  "resolved (snd (retain_dispose a st)) = resolved st"
  "promiseCount (snd (retain_dispose a st)) = promiseCount st"
  "subscriptions (snd (retain_dispose a st)) = subscriptions st"
  "subscribeCount (snd (retain_dispose a st)) = subscribeCount st"
  "observerLog (snd (retain_dispose a st)) = observerLog st"
  by (simp_all add: retain_dispose_def Let_def split: option.split)

lemma retain_dispose_fst:
  "fst (retain_dispose a st) =
     (if retainCount (entries st a) \<le> 1 \<and> retainDisposable (entries st a) = None
      then Inl (InvariantViolation ''Relay: Expected disposable to release query to be defined.'')
      else Inr ())"
  by (auto simp: retain_dispose_def Let_def split: option.split)

lemma retain_dispose_entries:
  "entries (snd (retain_dispose a st)) b =
     (if b = a
      then (entries st a)
             \<lparr>retainCount := max 0 (retainCount (entries st a) - 1),
              retainDisposable :=
                (if retainCount (entries st a) \<le> 1 then None else retainDisposable (entries st a))\<rparr>
      else entries st b)"
  by (auto simp: retain_dispose_def Let_def split: option.split)

lemma retain_dispose_cache:
  "cache (snd (retain_dispose a st)) =
     (if retainCount (entries st a) \<le> 1 \<and> retainDisposable (entries st a) \<noteq> None
      then lru_delete (entry_cacheKey (entries st a)) (cache st)
      else cache st)"
  by (auto simp: retain_dispose_def Let_def split: option.split)

lemma retain_dispose_environment:
  "environment (snd (retain_dispose a st)) =
     (if retainCount (entries st a) \<le> 1
      then (case retainDisposable (entries st a) of
              None \<Rightarrow> environment st
            | Some d \<Rightarrow> environment_release d (environment st))
      else environment st)"
  by (auto simp: retain_dispose_def Let_def split: option.split)

lemma currentValue_entry_retain [simp]:
  "currentValue (entries (entry_retain a st) b) = currentValue (entries st b)"
  by (simp add: entry_retain_entries)

lemma currentValue_retain_dispose [simp]:
  "currentValue (entries (snd (retain_dispose a st)) b) = currentValue (entries st b)"
  by (simp add: retain_dispose_entries)

lemma currentValue_localRelease [simp]:
  "currentValue (entries (snd (localReleaseTemporaryRetain t a st)) b) = currentValue (entries st b)"
  by (simp add: localReleaseTemporaryRetain_def)

lemma temporaryRetain_server: "\<not> canUseDOM g \<Longrightarrow> temporaryRetain g a st = (Inr (), st)"
  by (simp add: temporaryRetain_def)

lemma currentValue_temporaryRetain [simp]:
  "currentValue (entries (snd (temporaryRetain g a st)) b) = currentValue (entries st b)"
  by (simp add: temporaryRetain_def Let_def split_beta split: option.split sum.split)

lemma temporaryRetain_counts [simp]:
  "subscribeCount (snd (temporaryRetain g a st)) = subscribeCount st"
  "promiseCount (snd (temporaryRetain g a st)) = promiseCount st"
  "subscriptions (snd (temporaryRetain g a st)) = subscriptions st"
  "resolved (snd (temporaryRetain g a st)) = resolved st"
  by (simp_all add: temporaryRetain_def localReleaseTemporaryRetain_def Let_def split_beta
      split: option.split sum.split)

lemma localRelease_after_retain:
  assumes "0 \<le> retainCount (entries st a)"
  shows "fst (localReleaseTemporaryRetain t a ((entry_retain a st)\<lparr>timeouts := ts, timeoutCount := n\<rparr>)) = Inr ()"
    and "fst (localReleaseTemporaryRetain t a (entry_retain a st)) = Inr ()"
  using assms
  by (simp_all add: localReleaseTemporaryRetain_def retain_dispose_fst entry_retain_entries)

lemma temporaryRetain_fst:
  assumes "0 \<le> retainCount (entries st a)"
  shows "fst (temporaryRetain g a st) = Inr ()"
  using localRelease_after_retain(1) [OF assms]
  by (simp add: temporaryRetain_def Let_def split_beta split: option.split sum.split)

lemma permanentRetain_fst:
  assumes "0 \<le> retainCount (entries st a)"
  shows "fst (permanentRetain a st) = Inr ()"
  using localRelease_after_retain(2) [OF assms]
  by (simp add: permanentRetain_def Let_def split_beta split: option.split sum.split)

lemma prepareEntry_hit:
  assumes "map_of (cache st) (prepareCacheKey g op fp rp b) = Some a"
  shows "fst (prepareEntry g op evs fp rp ob b st) = Inr a"
    and "entries (snd (prepareEntry g op evs fp rp ob b st)) = entries st"
    and "subscribeCount (snd (prepareEntry g op evs fp rp ob b st)) = subscribeCount st"
  using assms by (simp_all add: prepareEntry_def Let_def split_beta)

lemma prepareEntry_miss:
  assumes "map_of (cache st) (prepareCacheKey g op fp rp b) = None"
  shows "prepareEntry g op evs fp rp ob b st =
     fetchAndSaveQuery (prepareCacheKey g op fp rp b) op evs
       (case fp of None \<Rightarrow> DEFAULT_FETCH_POLICY | Some p \<Rightarrow> p)
       (case rp of None \<Rightarrow> DEFAULT_RENDER_POLICY g | Some p \<Rightarrow> p) ob
       (snd (cache_get (prepareCacheKey g op fp rp b) st))"
  using assms by (simp add: prepareEntry_def Let_def split_beta)

lemma prepare_hit:
  assumes "retains_ok st"
    and "map_of (cache st) (prepareCacheKey g op fp rp b) = Some a"
  shows "fst (prepare g op evs fp rp ob b st) = throwOrReturn (currentValue (entries st a))"
proof -
  have "0 \<le> retainCount (entries (snd (prepareEntry g op evs fp rp ob b st)) a)"
    using retains_okD [OF assms(1), of a] by (simp add: prepareEntry_hit(2) [OF assms(2)] entry_ok_def)
  then have "fst (temporaryRetain g a (snd (prepareEntry g op evs fp rp ob b st))) = Inr ()"
    by (rule temporaryRetain_fst)
  then show ?thesis
    by (simp add: prepare_def split_beta prepareEntry_hit [OF assms(2)])
qed

lemma prepare_miss:
  assumes "map_of (cache st) (prepareCacheKey g op fp rp b) = None"
  shows "fst (prepare g op [] fp rp ob b st) =
     (if shouldAllowRender (case fp of None \<Rightarrow> DEFAULT_FETCH_POLICY | Some p \<Rightarrow> p)
           (store_check (environment st) (root op) \<or>
            (case rp of None \<Rightarrow> DEFAULT_RENDER_POLICY g | Some p \<Rightarrow> p) = ''partial'')
      then Inr (getQueryResult op (prepareCacheKey g op fp rp b))
      else Inl (ThrowPromise (promiseCount st)))"
proof -
  let ?key = "prepareCacheKey g op fp rp b"
  let ?fp = "case fp of None \<Rightarrow> DEFAULT_FETCH_POLICY | Some p \<Rightarrow> p"
  let ?rp = "case rp of None \<Rightarrow> DEFAULT_RENDER_POLICY g | Some p \<Rightarrow> p"
  let ?st0 = "snd (cache_get ?key st)"
  let ?allow = "shouldAllowRender ?fp (store_check (environment st) (root op) \<or> ?rp = ''partial'')"
  have miss0: "map_of (cache ?st0) ?key = None"
    using assms by simp
  have pe: "prepareEntry g op [] fp rp ob b st = fetchAndSaveQuery ?key op [] ?fp ?rp ob ?st0"
    by (rule prepareEntry_miss [OF assms])
  show ?thesis
  proof (cases ?allow)
    case True
    then have al: "shouldAllowRender ?fp (store_check (environment ?st0) (root op) \<or> ?rp = ''partial'')"
      by simp
    have r: "fst (fetchAndSaveQuery ?key op [] ?fp ?rp ob ?st0) = Inr (entryCount st)"
      "entries (snd (fetchAndSaveQuery ?key op [] ?fp ?rp ob ?st0)) (entryCount st) =
         \<lparr>entry_cacheKey = ?key, entry_operation = op,
           currentValue = Result (getQueryResult op ?key), retainCount = 0,
           permanentlyRetained = False, retainDisposable = None,
           releaseTemporaryRetain = None\<rparr>"
      using fetchAndSaveQuery_render [OF miss0 al, of ob] by simp_all
    have "fst (temporaryRetain g (entryCount st) (snd (fetchAndSaveQuery ?key op [] ?fp ?rp ob ?st0))) = Inr ()"
      by (rule temporaryRetain_fst) (simp add: r(2))
    then show ?thesis
      using True by (simp add: prepare_def split_beta pe r throwOrReturn_def)
  next
    case False
    then have al: "\<not> shouldAllowRender ?fp (store_check (environment ?st0) (root op) \<or> ?rp = ''partial'')"
      by simp
    have r: "fst (fetchAndSaveQuery ?key op [] ?fp ?rp ob ?st0) = Inr (entryCount st)"
      "entries (snd (fetchAndSaveQuery ?key op [] ?fp ?rp ob ?st0)) (entryCount st) =
         \<lparr>entry_cacheKey = ?key, entry_operation = op,
           currentValue = Promise (promiseCount st), retainCount = 0,
           permanentlyRetained = False, retainDisposable = None,
           releaseTemporaryRetain = None\<rparr>"
      using fetchAndSaveQuery_suspend [OF miss0 al, of ob] by simp_all
    have "fst (temporaryRetain g (entryCount st) (snd (fetchAndSaveQuery ?key op [] ?fp ?rp ob ?st0))) = Inr ()"
      by (rule temporaryRetain_fst) (simp add: r(2))
    then show ?thesis
      using False by (simp add: prepare_def split_beta pe r throwOrReturn_def)
  qed
qed

lemma prepare_subscribeCount:
  "subscribeCount (snd (prepare g op evs fp rp ob b st)) =
     subscribeCount st +
     (if map_of (cache st) (prepareCacheKey g op fp rp b) = None \<and>
         shouldFetch (case fp of None \<Rightarrow> DEFAULT_FETCH_POLICY | Some p \<Rightarrow> p)
           (store_check (environment st) (root op))
      then 1 else 0)"
proof (cases "map_of (cache st) (prepareCacheKey g op fp rp b)")
  case None
  then show ?thesis
    by (simp add: prepare_def split_beta prepareEntry_miss fetchAndSaveQuery_subscribeCount
        split: sum.split)
next
  case (Some a)
  then show ?thesis
    by (simp add: prepare_def split_beta prepareEntry_hit split: sum.split)
qed

lemma createQueryResource_fields [simp]:
  "environment (createQueryResource env) = env"
  "cache (createQueryResource env) = []"
  "entryCount (createQueryResource env) = 0"
  "timeouts (createQueryResource env) = Map.empty"
  "timeoutCount (createQueryResource env) = 0"
  "resolved (createQueryResource env) = (\<lambda>_. False)"
  "promiseCount (createQueryResource env) = 0"
  "subscriptions (createQueryResource env) = Map.empty"
  "subscribeCount (createQueryResource env) = 0"
  "observerLog (createQueryResource env) = []"
  by (simp_all add: createQueryResource_def)

lemma mockEnvironment_fields [simp]:
  "store_check (mockEnvironment full) sel = full"
  "store_isMissingData (mockEnvironment full) rsel = (\<not> full)"
  "store_retains (mockEnvironment full) = Map.empty"
  "store_retainCalls (mockEnvironment full) = 0"
  by (simp_all add: mockEnvironment_def)

lemma prepareEntry_globals:
  "prepareEntry (g\<lparr>canUseDOM := d\<rparr>) op evs fp rp ob b st = prepareEntry g op evs fp rp ob b st"
proof -
  have d: "DEFAULT_RENDER_POLICY (g\<lparr>canUseDOM := d\<rparr>) = DEFAULT_RENDER_POLICY g"
    by (simp add: DEFAULT_RENDER_POLICY_def)
  show ?thesis
    by (simp only: prepareEntry_def prepareCacheKey_def d)
qed

lemma prepare_outcome:
  assumes "retains_ok st"
  shows "fst (prepare g op evs fp rp ob b st) =
     (case fst (prepareEntry g op evs fp rp ob b st) of
        Inl x \<Rightarrow> Inl x
      | Inr a \<Rightarrow> throwOrReturn (currentValue (entries (snd (prepareEntry g op evs fp rp ob b st)) a)))"
proof -
  have "retains_ok (snd (prepareEntry g op evs fp rp ob b st))"
    using assms by (rule retains_ok_prepareEntry)
  then have "\<And>a. fst (temporaryRetain g a (snd (prepareEntry g op evs fp rp ob b st))) = Inr ()"
    by (intro temporaryRetain_fst) (simp add: retains_ok_def entry_ok_def)
  then show ?thesis
    by (simp add: prepare_def split_beta split: sum.split)
qed

lemma temporaryRetain_permanent:
  "permanentlyRetained (entries st a) \<Longrightarrow> temporaryRetain g a st = (Inr (), st)"
  by (simp add: temporaryRetain_def)

lemma temporaryRetain_first_cache:
  "releaseTemporaryRetain (entries st a) = None \<Longrightarrow> cache (snd (temporaryRetain g a st)) = cache st"
  by (simp add: temporaryRetain_def Let_def entry_retain_entries)

lemma resolved_resolvePromise [simp]:
  "resolved (resolvePromise r st) p = (r = Some p \<or> resolved st p)"
  by (auto simp: resolvePromise_def split: option.split)

lemma fetchAndSaveQuery_store:
  assumes "map_of (cache st) key = None"
    and "\<not> shouldFetch fp (store_check (environment st) (root op))"
  shows "fst (fetchAndSaveQuery key op evs fp rp ob st) = Inr (entryCount st)"
    and "entries (snd (fetchAndSaveQuery key op evs fp rp ob st)) (entryCount st) =
          \<lparr>entry_cacheKey = key, entry_operation = op,
            currentValue = Result (getQueryResult op key), retainCount = 0,
            permanentlyRetained = False, retainDisposable = None,
            releaseTemporaryRetain = None\<rparr>"
  using assms not_allowed_fetches [of fp "store_check (environment st) (root op)" "rp = ''partial''"]
  by (auto simp: fetchAndSaveQuery_def Let_def split_beta)

lemma prepare_store:
  assumes "map_of (cache st) (prepareCacheKey g op fp rp b) = None"
    and "\<not> shouldFetch (case fp of None \<Rightarrow> DEFAULT_FETCH_POLICY | Some p \<Rightarrow> p)
             (store_check (environment st) (root op))"
  shows "fst (prepare g op evs fp rp ob b st) = Inr (getQueryResult op (prepareCacheKey g op fp rp b))"
proof -
  let ?key = "prepareCacheKey g op fp rp b"
  let ?fp = "case fp of None \<Rightarrow> DEFAULT_FETCH_POLICY | Some p \<Rightarrow> p"
  let ?rp = "case rp of None \<Rightarrow> DEFAULT_RENDER_POLICY g | Some p \<Rightarrow> p"
  let ?st0 = "snd (cache_get ?key st)"
  have miss0: "map_of (cache ?st0) ?key = None"
    using assms(1) by simp
  have nf: "\<not> shouldFetch ?fp (store_check (environment ?st0) (root op))"
    using assms(2) by simp
  have pe: "prepareEntry g op evs fp rp ob b st = fetchAndSaveQuery ?key op evs ?fp ?rp ob ?st0"
    by (rule prepareEntry_miss [OF assms(1)])
  have r: "fst (fetchAndSaveQuery ?key op evs ?fp ?rp ob ?st0) = Inr (entryCount st)"
    "entries (snd (fetchAndSaveQuery ?key op evs ?fp ?rp ob ?st0)) (entryCount st) =
       \<lparr>entry_cacheKey = ?key, entry_operation = op,
         currentValue = Result (getQueryResult op ?key), retainCount = 0,
         permanentlyRetained = False, retainDisposable = None,
         releaseTemporaryRetain = None\<rparr>"
    using fetchAndSaveQuery_store [OF miss0 nf, of evs ?rp ob] by simp_all
  have "fst (temporaryRetain g (entryCount st) (snd (fetchAndSaveQuery ?key op evs ?fp ?rp ob ?st0))) = Inr ()"
    by (rule temporaryRetain_fst) (simp add: r(2))
  then show ?thesis
    by (simp add: prepare_def split_beta pe r throwOrReturn_def)
qed

lemma fetchAndSaveQuery_suspend_state:
  assumes "map_of (cache st) key = None"
    and "\<not> shouldAllowRender fp (store_check (environment st) (root op) \<or> rp = ''partial'')"
  shows "subscriptions (snd (fetchAndSaveQuery key op [] fp rp ob st)) (subscribeCount st) =
           Some \<lparr>sub_cacheKey = key, sub_operation = op,
                 resolveNetworkPromise = Some (promiseCount st), sub_observer = ob\<rparr>"
    and "map_of (cache (snd (fetchAndSaveQuery key op [] fp rp ob st))) key = Some (entryCount st)"
  using assms not_allowed_fetches [of fp "store_check (environment st) (root op)" "rp = ''partial''"]
  by (simp_all add: fetchAndSaveQuery_def Let_def split_beta newNetworkPromise_def)

lemma prepare_suspend_state:
  assumes "map_of (cache st) (prepareCacheKey g op fp rp b) = None"
    and "\<not> shouldAllowRender (case fp of None \<Rightarrow> DEFAULT_FETCH_POLICY | Some p \<Rightarrow> p)
           (store_check (environment st) (root op) \<or>
            (case rp of None \<Rightarrow> DEFAULT_RENDER_POLICY g | Some p \<Rightarrow> p) = ''partial'')"
  shows "subscriptions (snd (prepare g op [] fp rp ob b st)) (subscribeCount st) =
           Some \<lparr>sub_cacheKey = prepareCacheKey g op fp rp b, sub_operation = op,
                 resolveNetworkPromise = Some (promiseCount st), sub_observer = ob\<rparr>"
    and "map_of (cache (snd (prepare g op [] fp rp ob b st))) (prepareCacheKey g op fp rp b) =
           Some (entryCount st)"
proof -
  let ?key = "prepareCacheKey g op fp rp b"
  let ?fp = "case fp of None \<Rightarrow> DEFAULT_FETCH_POLICY | Some p \<Rightarrow> p"
  let ?rp = "case rp of None \<Rightarrow> DEFAULT_RENDER_POLICY g | Some p \<Rightarrow> p"
  let ?st0 = "snd (cache_get ?key st)"
  let ?st1 = "snd (fetchAndSaveQuery ?key op [] ?fp ?rp ob ?st0)"
  have miss0: "map_of (cache ?st0) ?key = None"
    using assms(1) by simp
  have al: "\<not> shouldAllowRender ?fp (store_check (environment ?st0) (root op) \<or> ?rp = ''partial'')"
    using assms(2) by simp
  have pe: "prepareEntry g op [] fp rp ob b st = fetchAndSaveQuery ?key op [] ?fp ?rp ob ?st0"
    by (rule prepareEntry_miss [OF assms(1)])
  have r: "fst (fetchAndSaveQuery ?key op [] ?fp ?rp ob ?st0) = Inr (entryCount st)"
    "entries ?st1 (entryCount st) =
       \<lparr>entry_cacheKey = ?key, entry_operation = op,
         currentValue = Promise (promiseCount st), retainCount = 0,
         permanentlyRetained = False, retainDisposable = None,
         releaseTemporaryRetain = None\<rparr>"
    using fetchAndSaveQuery_suspend [OF miss0 al, of ob] by simp_all
  have s: "subscriptions ?st1 (subscribeCount st) =
           Some \<lparr>sub_cacheKey = ?key, sub_operation = op,
                 resolveNetworkPromise = Some (promiseCount st), sub_observer = ob\<rparr>"
    "map_of (cache ?st1) ?key = Some (entryCount st)"
    using fetchAndSaveQuery_suspend_state [OF miss0 al, of ob] by simp_all
  have t: "fst (temporaryRetain g (entryCount st) ?st1) = Inr ()"
    by (rule temporaryRetain_fst) (simp add: r(2))
  have c: "cache (snd (temporaryRetain g (entryCount st) ?st1)) = cache ?st1"
    by (rule temporaryRetain_first_cache) (simp add: r(2))
  show "subscriptions (snd (prepare g op [] fp rp ob b st)) (subscribeCount st) =
           Some \<lparr>sub_cacheKey = ?key, sub_operation = op,
                 resolveNetworkPromise = Some (promiseCount st), sub_observer = ob\<rparr>"
    using t s(1) by (simp add: prepare_def split_beta pe r(1))
  show "map_of (cache (snd (prepare g op [] fp rp ob b st))) ?key = Some (entryCount st)"
    using t s(2) c by (simp add: prepare_def split_beta pe r(1))
qed

lemma deliver_next_complete_data:
  assumes "subscriptions st s = Some sub"
    and "\<not> store_isMissingData (environment st) (fragment (sub_operation sub))"
    and "map_of (cache st) (sub_cacheKey sub) = Some a"
  shows "map_of (cache (deliver s Next st)) (sub_cacheKey sub) = Some a"
    and "currentValue (entries (deliver s Next st) a) =
           Result (getQueryResult (sub_operation sub) (sub_cacheKey sub))"
    and "resolveNetworkPromise sub = Some p \<Longrightarrow> resolved (deliver s Next st) p"
  using assms
  by (simp_all add: deliver_def onNext_def Let_def split_beta entryForEvent_entries)

lemma prepare_suspend_value:
  assumes "map_of (cache st) (prepareCacheKey g op fp rp b) = None"
    and "\<not> shouldAllowRender (case fp of None \<Rightarrow> DEFAULT_FETCH_POLICY | Some p \<Rightarrow> p)
           (store_check (environment st) (root op) \<or>
            (case rp of None \<Rightarrow> DEFAULT_RENDER_POLICY g | Some p \<Rightarrow> p) = ''partial'')"
  shows "fst (prepareEntry g op [] fp rp ob b st) = Inr (entryCount st)"
    and "currentValue (entries (snd (prepareEntry g op [] fp rp ob b st)) (entryCount st)) =
           Promise (promiseCount st)"
    and "currentValue (entries (snd (prepare g op [] fp rp ob b st)) (entryCount st)) =
           Promise (promiseCount st)"
proof -
  let ?key = "prepareCacheKey g op fp rp b"
  let ?fp = "case fp of None \<Rightarrow> DEFAULT_FETCH_POLICY | Some p \<Rightarrow> p"
  let ?rp = "case rp of None \<Rightarrow> DEFAULT_RENDER_POLICY g | Some p \<Rightarrow> p"
  let ?st0 = "snd (cache_get ?key st)"
  let ?st1 = "snd (fetchAndSaveQuery ?key op [] ?fp ?rp ob ?st0)"
  have miss0: "map_of (cache ?st0) ?key = None"
    using assms(1) by simp
  have al: "\<not> shouldAllowRender ?fp (store_check (environment ?st0) (root op) \<or> ?rp = ''partial'')"
    using assms(2) by simp
  have pe: "prepareEntry g op [] fp rp ob b st = fetchAndSaveQuery ?key op [] ?fp ?rp ob ?st0"
    by (rule prepareEntry_miss [OF assms(1)])
  have r: "fst (fetchAndSaveQuery ?key op [] ?fp ?rp ob ?st0) = Inr (entryCount st)"
    "entries ?st1 (entryCount st) =
       \<lparr>entry_cacheKey = ?key, entry_operation = op,
         currentValue = Promise (promiseCount st), retainCount = 0,
         permanentlyRetained = False, retainDisposable = None,
         releaseTemporaryRetain = None\<rparr>"
    using fetchAndSaveQuery_suspend [OF miss0 al, of ob] by simp_all
  have t: "fst (temporaryRetain g (entryCount st) ?st1) = Inr ()"
    by (rule temporaryRetain_fst) (simp add: r(2))
  show "fst (prepareEntry g op [] fp rp ob b st) = Inr (entryCount st)"
    by (simp add: pe r(1))
  show "currentValue (entries (snd (prepareEntry g op [] fp rp ob b st)) (entryCount st)) =
           Promise (promiseCount st)"
    by (simp add: pe r(2))
  show "currentValue (entries (snd (prepare g op [] fp rp ob b st)) (entryCount st)) =
           Promise (promiseCount st)"
    using t by (simp add: prepare_def split_beta pe r)
qed

lemma deliver_next_missing:
  assumes "subscriptions st s = Some sub"
    and "store_isMissingData (environment st) (fragment (sub_operation sub))"
  shows "deliver s Next st = observerCall (sub_observer sub) ObsNext st"
  using assms by (simp add: deliver_def onNext_def Let_def)

lemma deliver_closed: "subscriptions st s = None \<Longrightarrow> deliver s ev st = st"
  by (simp add: deliver_def)

lemma currentValue_deliver_changes:
  assumes "currentValue (entries (deliver s ev st) a) \<noteq> currentValue (entries st a)"
  shows "\<exists>sub. subscriptions st s = Some sub \<and>
           ((\<exists>err. ev = NetError err) \<or>
            (ev = Next \<and> \<not> store_isMissingData (environment st) (fragment (sub_operation sub))))"
proof (cases "subscriptions st s")
  case None
  with assms show ?thesis
    by (simp add: deliver_closed)
next
  case (Some sub)
  with assms show ?thesis
    by (cases ev) (auto simp: deliver_def onNext_def onComplete_def Let_def)
qed

lemma deliver_no_new_promise:
  assumes "currentValue (entries (deliver s ev st) b) = Promise q"
  shows "currentValue (entries st b) = Promise q"
proof (cases "subscriptions st s")
  case None
  with assms show ?thesis
    by (simp add: deliver_closed)
next
  case (Some sub)
  with assms show ?thesis
    by (cases ev)
      (auto simp: deliver_def onNext_def onError_def onComplete_def Let_def split_beta
        entryForEvent_entries split: if_splits option.splits)
qed

lemma deliver_error:
  assumes "subscriptions st s = Some sub"
    and "map_of (cache st) (sub_cacheKey sub) = Some a"
  shows "currentValue (entries (deliver s (NetError err) st) a) = Error err"
    and "subscriptions (deliver s (NetError err) st) s = None"
    and "map_of (cache (deliver s (NetError err) st)) (sub_cacheKey sub) = Some a"
    and "resolveNetworkPromise sub = Some p \<Longrightarrow> resolved (deliver s (NetError err) st) p"
  using assms
  by (simp_all add: deliver_def onError_def Let_def split_beta entryForEvent_entries)

lemma environment_retain_data [simp]:
  "store_isMissingData (snd (environment_retain sel env)) = store_isMissingData env"
  "store_check (snd (environment_retain sel env)) = store_check env"
  "store_isMissingData (environment_release d env) = store_isMissingData env"
  "store_check (environment_release d env) = store_check env"
  by (simp_all add: environment_retain_def environment_release_def)

lemma entry_retain_data [simp]:
  "store_isMissingData (environment (entry_retain a st)) = store_isMissingData (environment st)"
  "store_check (environment (entry_retain a st)) = store_check (environment st)"
  by (simp_all add: entry_retain_environment)

lemma retain_dispose_data [simp]:
  "store_isMissingData (environment (snd (retain_dispose a st))) = store_isMissingData (environment st)"
  "store_check (environment (snd (retain_dispose a st))) = store_check (environment st)"
  by (simp_all add: retain_dispose_environment split: option.split)

lemma temporaryRetain_data [simp]:
  "store_isMissingData (environment (snd (temporaryRetain g a st))) = store_isMissingData (environment st)"
  "store_check (environment (snd (temporaryRetain g a st))) = store_check (environment st)"
  by (simp_all add: temporaryRetain_def localReleaseTemporaryRetain_def Let_def split_beta
      split: option.split sum.split)

lemma fetchAndSaveQuery_environment [simp]:
  "environment (snd (fetchAndSaveQuery key op evs fp rp ob st)) = environment st"
  by (simp add: fetchAndSaveQuery_def Let_def split_beta split: option.split)

lemma prepareEntry_environment [simp]:
  "environment (snd (prepareEntry g op evs fp rp ob b st)) = environment st"
  by (simp add: prepareEntry_def Let_def split_beta split: option.split)

lemma prepare_data [simp]:
  "store_isMissingData (environment (snd (prepare g op evs fp rp ob b st))) =
     store_isMissingData (environment st)"
  "store_check (environment (snd (prepare g op evs fp rp ob b st))) = store_check (environment st)"
  by (simp_all add: prepare_def split_beta split: sum.split)

lemma localRelease_fields [simp]:
  "entryCount (snd (localReleaseTemporaryRetain t a st)) = entryCount st"
  "timeouts (snd (localReleaseTemporaryRetain t a st)) = (timeouts st)(t := None)"
  "timeoutCount (snd (localReleaseTemporaryRetain t a st)) = timeoutCount st"
  "resolved (snd (localReleaseTemporaryRetain t a st)) = resolved st"
  "promiseCount (snd (localReleaseTemporaryRetain t a st)) = promiseCount st"
  "subscriptions (snd (localReleaseTemporaryRetain t a st)) = subscriptions st"
  "subscribeCount (snd (localReleaseTemporaryRetain t a st)) = subscribeCount st"
  "observerLog (snd (localReleaseTemporaryRetain t a st)) = observerLog st"
  by (simp_all add: localReleaseTemporaryRetain_def)

lemma permanentRetain_first:
  assumes "releaseTemporaryRetain (entries st a) = None"
  shows "permanentRetain a st =
     (Inr (), setEntry a (\<lambda>e. e\<lparr>permanentlyRetained := True\<rparr>) (entry_retain a st))"
  using assms by (simp add: permanentRetain_def Let_def entry_retain_entries)

lemma permanentRetain_transfer:
  assumes "releaseTemporaryRetain (entries st a) = Some t"
    and "0 \<le> retainCount (entries st a)"
  shows "permanentRetain a st =
     (Inr (),
      setEntry a (\<lambda>e. e\<lparr>permanentlyRetained := True\<rparr>)
        (setEntry a (\<lambda>e. e\<lparr>releaseTemporaryRetain := None\<rparr>)
           (snd (localReleaseTemporaryRetain t a (entry_retain a st)))))"
  using assms localRelease_after_retain(2) [OF assms(2), of t]
  by (simp add: permanentRetain_def Let_def entry_retain_entries split_beta)

lemma permanentRetain_entries:
  assumes "0 \<le> retainCount (entries st a)"
  shows "entries (snd (permanentRetain a st)) b =
     (if b = a
      then (entries st a)
             \<lparr>retainCount :=
                retainCount (entries st a) +
                (if releaseTemporaryRetain (entries st a) = None then 1 else 0),
              permanentlyRetained := True,
              retainDisposable :=
                (if retainCount (entries st a) = 0
                 then (if releaseTemporaryRetain (entries st a) = None
                       then Some (store_retainCalls (environment st)) else None)
                 else retainDisposable (entries st a)),
              releaseTemporaryRetain := None\<rparr>
      else entries st b)"
proof (cases "releaseTemporaryRetain (entries st a)")
  case None
  then show ?thesis
    by (simp add: permanentRetain_first entry_retain_entries)
next
  case (Some t)
  then show ?thesis
    using assms
    by (simp add: permanentRetain_transfer [OF Some assms] localReleaseTemporaryRetain_def
        retain_dispose_entries entry_retain_entries)
qed

lemma permanentRetain_timeouts:
  assumes "0 \<le> retainCount (entries st a)"
  shows "timeouts (snd (permanentRetain a st)) =
     (case releaseTemporaryRetain (entries st a) of
        None \<Rightarrow> timeouts st
      | Some t \<Rightarrow> (timeouts st)(t := None))"
proof (cases "releaseTemporaryRetain (entries st a)")
  case None
  then show ?thesis
    by (simp add: permanentRetain_first)
next
  case (Some t)
  then show ?thesis
    by (simp add: permanentRetain_transfer [OF Some assms])
qed

lemma store_retainCalls_release [simp]:
  "store_retainCalls (environment_release d env) = store_retainCalls env"
  by (simp add: environment_release_def)

lemma permanentRetain_store:
  assumes "0 \<le> retainCount (entries st a)"
  shows "store_retainCalls (environment (snd (permanentRetain a st))) =
     store_retainCalls (environment st) + (if retainCount (entries st a) = 0 then 1 else 0)"
proof (cases "releaseTemporaryRetain (entries st a)")
  case None
  then show ?thesis
    by (simp add: permanentRetain_first entry_retain_environment environment_retain_def)
next
  case (Some t)
  then show ?thesis
    by (simp add: permanentRetain_transfer [OF Some assms] localReleaseTemporaryRetain_def
        retain_dispose_environment entry_retain_environment entry_retain_entries
        environment_retain_def split: option.split)
qed

lemma permanentRetain_acquires:
  assumes "retainCount (entries st a) = 0"
    and "releaseTemporaryRetain (entries st a) = None"
  shows "retainDisposable (entries (snd (permanentRetain a st)) a) =
           Some (store_retainCalls (environment st))"
    and "store_retains (environment (snd (permanentRetain a st))) (store_retainCalls (environment st)) =
           Some (root (entry_operation (entries st a)))"
    and "cache (snd (permanentRetain a st)) = cache st"
  using assms
  by (simp_all add: permanentRetain_first entry_retain_entries entry_retain_environment
      environment_retain_def)

lemma lru_delete_idem [simp]: "lru_delete k (lru_delete k c) = lru_delete k c"
  by (simp add: lru_delete_def)

lemma map_of_lru_delete_same [simp]: "map_of (lru_delete k c) k = None"
  by (simp add: map_of_lru_delete)

lemma retain_hit:
  assumes "map_of (cache st) (cacheKey qr) = Some a"
    and "0 \<le> retainCount (entries st a)"
  shows "fst (retain qr st) = Inr a"
    and "snd (retain qr st) = snd (permanentRetain a (snd (cache_get (cacheKey qr) st)))"
proof -
  have "fst (permanentRetain a (snd (cache_get (cacheKey qr) st))) = Inr ()"
    by (rule permanentRetain_fst) (simp add: assms(2))
  then show "fst (retain qr st) = Inr a"
    and "snd (retain qr st) = snd (permanentRetain a (snd (cache_get (cacheKey qr) st)))"
    using assms(1) by (simp_all add: retain_def split_beta)
qed

lemma retain_miss:
  assumes "map_of (cache st) (cacheKey qr) = None"
  shows "fst (retain qr st) = Inr (entryCount st)"
    and "snd (retain qr st) =
      setEntry (entryCount st) (\<lambda>e. e\<lparr>permanentlyRetained := True\<rparr>)
        (entry_retain (entryCount st)
           (cache_set (cacheKey qr) (entryCount st)
              (snd (createQueryResourceCacheEntry (cacheKey qr) (operation qr) (Result qr)
                      (snd (cache_get (cacheKey qr) st))))))"
proof -
  let ?st3 = "cache_set (cacheKey qr) (entryCount st)
              (snd (createQueryResourceCacheEntry (cacheKey qr) (operation qr) (Result qr)
                      (snd (cache_get (cacheKey qr) st))))"
  have "permanentRetain (entryCount st) ?st3 =
      (Inr (), setEntry (entryCount st) (\<lambda>e. e\<lparr>permanentlyRetained := True\<rparr>)
                 (entry_retain (entryCount st) ?st3))"
    by (rule permanentRetain_first) simp
  then show "fst (retain qr st) = Inr (entryCount st)"
    and "snd (retain qr st) =
      setEntry (entryCount st) (\<lambda>e. e\<lparr>permanentlyRetained := True\<rparr>)
        (entry_retain (entryCount st) ?st3)"
    using assms by (simp_all add: retain_def split_beta)
qed

lemma retain_miss_state:
  assumes "map_of (cache st) (cacheKey qr) = None"
  shows "entries (snd (retain qr st)) (entryCount st) =
      \<lparr>entry_cacheKey = cacheKey qr, entry_operation = operation qr, currentValue = Result qr,
        retainCount = 1, permanentlyRetained = True,
        retainDisposable = Some (store_retainCalls (environment st)),
        releaseTemporaryRetain = None\<rparr>"
    and "map_of (cache (snd (retain qr st))) (cacheKey qr) = Some (entryCount st)"
    and "store_retains (environment (snd (retain qr st))) (store_retainCalls (environment st)) =
           Some (root (operation qr))"
    and "subscribeCount (snd (retain qr st)) = subscribeCount st"
  by (simp_all add: retain_miss(2) [OF assms] entry_retain_entries entry_retain_environment
      environment_retain_def)

lemma prepare_hit_permanent:
  assumes "map_of (cache st) (prepareCacheKey g op fp rp b) = Some a"
    and "permanentlyRetained (entries st a)"
  shows "fst (prepare g op evs fp rp ob b st) = throwOrReturn (currentValue (entries st a))"
  using assms
  by (simp add: prepare_def split_beta prepareEntry_hit [OF assms(1)] temporaryRetain_def)

lemma retain_succeeds:
  assumes "retains_ok st"
  shows "\<exists>a. fst (retain qr st) = Inr a"
proof (cases "map_of (cache st) (cacheKey qr)")
  case None
  then show ?thesis
    by (simp add: retain_miss(1))
next
  case (Some a)
  have "0 \<le> retainCount (entries st a)"
    using retains_okD [OF assms, of a] by (simp add: entry_ok_def)
  with Some show ?thesis
    by (simp add: retain_hit(1))
qed

lemma deliver_all_timeouts [simp]:
  "timeouts (foldl (\<lambda>st' ev. deliver s ev st') st evs) = timeouts st"
  "timeoutCount (foldl (\<lambda>st' ev. deliver s ev st') st evs) = timeoutCount st"
  by (induction evs arbitrary: st) simp_all

lemma subscribe_timeouts [simp]:
  "timeouts (snd (subscribe k op evs ob st)) = timeouts st"
  "timeoutCount (snd (subscribe k op evs ob st)) = timeoutCount st"
  by (simp_all add: subscribe_def Let_def)

lemma fetchAndSaveQuery_timeouts [simp]:
  "timeouts (snd (fetchAndSaveQuery key op evs fp rp ob st)) = timeouts st"
  "timeoutCount (snd (fetchAndSaveQuery key op evs fp rp ob st)) = timeoutCount st"
  by (simp_all add: fetchAndSaveQuery_def Let_def split_beta split: option.split)

lemma fetchAndSaveQuery_render_cache:
  assumes "map_of (cache st) key = None"
    and "shouldAllowRender fp (store_check (environment st) (root op) \<or> rp = ''partial'')"
  shows "map_of (cache (snd (fetchAndSaveQuery key op [] fp rp ob st))) key = Some (entryCount st)"
  using assms
  by (simp add: fetchAndSaveQuery_def Let_def split_beta split: option.split)

lemma temporaryRetain_fresh:
  assumes "canUseDOM g"
    and "\<not> permanentlyRetained (entries st a)"
    and "releaseTemporaryRetain (entries st a) = None"
  shows "temporaryRetain g a st =
     (Inr (),
      setEntry a (\<lambda>e. e\<lparr>releaseTemporaryRetain := Some (timeoutCount st)\<rparr>)
        ((entry_retain a st)\<lparr>timeouts := (timeouts st)(timeoutCount st \<mapsto> a),
                              timeoutCount := timeoutCount st + 1\<rparr>))"
  using assms by (simp add: temporaryRetain_def Let_def entry_retain_entries)

lemma prepare_first_render:
  assumes "map_of (cache st) (prepareCacheKey g op fp rp b) = None"
    and "shouldAllowRender (case fp of None \<Rightarrow> DEFAULT_FETCH_POLICY | Some p \<Rightarrow> p)
           (store_check (environment st) (root op) \<or>
            (case rp of None \<Rightarrow> DEFAULT_RENDER_POLICY g | Some p \<Rightarrow> p) = ''partial'')"
    and "canUseDOM g"
  shows "entries (snd (prepare g op [] fp rp ob b st)) (entryCount st) =
      \<lparr>entry_cacheKey = prepareCacheKey g op fp rp b, entry_operation = op,
        currentValue = Result (getQueryResult op (prepareCacheKey g op fp rp b)),
        retainCount = 1, permanentlyRetained = False,
        retainDisposable = Some (store_retainCalls (environment st)),
        releaseTemporaryRetain = Some (timeoutCount st)\<rparr>"
    and "map_of (cache (snd (prepare g op [] fp rp ob b st))) (prepareCacheKey g op fp rp b) =
           Some (entryCount st)"
    and "timeouts (snd (prepare g op [] fp rp ob b st)) (timeoutCount st) = Some (entryCount st)"
proof -
  let ?key = "prepareCacheKey g op fp rp b"
  let ?fp = "case fp of None \<Rightarrow> DEFAULT_FETCH_POLICY | Some p \<Rightarrow> p"
  let ?rp = "case rp of None \<Rightarrow> DEFAULT_RENDER_POLICY g | Some p \<Rightarrow> p"
  let ?st0 = "snd (cache_get ?key st)"
  let ?st1 = "snd (fetchAndSaveQuery ?key op [] ?fp ?rp ob ?st0)"
  have miss0: "map_of (cache ?st0) ?key = None"
    using assms(1) by simp
  have al: "shouldAllowRender ?fp (store_check (environment ?st0) (root op) \<or> ?rp = ''partial'')"
    using assms(2) by simp
  have pe: "prepareEntry g op [] fp rp ob b st = fetchAndSaveQuery ?key op [] ?fp ?rp ob ?st0"
    by (rule prepareEntry_miss [OF assms(1)])
  have r: "fst (fetchAndSaveQuery ?key op [] ?fp ?rp ob ?st0) = Inr (entryCount st)"
    "entries ?st1 (entryCount st) =
       \<lparr>entry_cacheKey = ?key, entry_operation = op,
         currentValue = Result (getQueryResult op ?key), retainCount = 0,
         permanentlyRetained = False, retainDisposable = None,
         releaseTemporaryRetain = None\<rparr>"
    using fetchAndSaveQuery_render [OF miss0 al, of ob] by simp_all
  have c: "map_of (cache ?st1) ?key = Some (entryCount st)"
    using fetchAndSaveQuery_render_cache [OF miss0 al, of ob] by simp
  have t: "temporaryRetain g (entryCount st) ?st1 =
     (Inr (),
      setEntry (entryCount st) (\<lambda>e. e\<lparr>releaseTemporaryRetain := Some (timeoutCount ?st1)\<rparr>)
        ((entry_retain (entryCount st) ?st1)\<lparr>timeouts := (timeouts ?st1)(timeoutCount ?st1 \<mapsto> entryCount st),
                              timeoutCount := timeoutCount ?st1 + 1\<rparr>))"
    by (rule temporaryRetain_fresh [OF assms(3)]) (simp_all add: r(2))
  show "entries (snd (prepare g op [] fp rp ob b st)) (entryCount st) =
      \<lparr>entry_cacheKey = ?key, entry_operation = op,
        currentValue = Result (getQueryResult op ?key),
        retainCount = 1, permanentlyRetained = False,
        retainDisposable = Some (store_retainCalls (environment st)),
        releaseTemporaryRetain = Some (timeoutCount st)\<rparr>"
    by (simp add: prepare_def split_beta pe r t entry_retain_entries)
  show "map_of (cache (snd (prepare g op [] fp rp ob b st))) ?key = Some (entryCount st)"
    using c by (simp add: prepare_def split_beta pe r(1) t)
  show "timeouts (snd (prepare g op [] fp rp ob b st)) (timeoutCount st) = Some (entryCount st)"
    by (simp add: prepare_def split_beta pe r(1) t)
qed

lemma disposeRetain_held:
  assumes "entry_ok (entries st a)"
    and "1 \<le> retainCount (entries st a)"
  shows "fst (disposeRetain a st) = Inr ()"
    and "entries (snd (disposeRetain a st)) b =
     (if b = a
      then (entries st a)
             \<lparr>retainCount := retainCount (entries st a) - 1,
              permanentlyRetained := False,
              retainDisposable :=
                (if retainCount (entries st a) = 1 then None else retainDisposable (entries st a))\<rparr>
      else entries st b)"
    and "cache (snd (disposeRetain a st)) =
     (if retainCount (entries st a) = 1 then lru_delete (entry_cacheKey (entries st a)) (cache st)
      else cache st)"
    and "environment (snd (disposeRetain a st)) =
     (if retainCount (entries st a) = 1
      then environment_release (the (retainDisposable (entries st a))) (environment st)
      else environment st)"
proof -
  have held: "retainDisposable (entries st a) \<noteq> None"
    using assms by (auto simp: entry_ok_def)
  have f: "fst (retain_dispose a st) = Inr ()"
    using held by (simp add: retain_dispose_fst)
  show "fst (disposeRetain a st) = Inr ()"
    using f by (simp add: disposeRetain_def permanentRetain_dispose_def split_beta)
  show "entries (snd (disposeRetain a st)) b =
     (if b = a
      then (entries st a)
             \<lparr>retainCount := retainCount (entries st a) - 1,
              permanentlyRetained := False,
              retainDisposable :=
                (if retainCount (entries st a) = 1 then None else retainDisposable (entries st a))\<rparr>
      else entries st b)"
    using f assms(2)
    by (simp add: disposeRetain_def permanentRetain_dispose_def split_beta retain_dispose_entries)
  show "cache (snd (disposeRetain a st)) =
     (if retainCount (entries st a) = 1 then lru_delete (entry_cacheKey (entries st a)) (cache st)
      else cache st)"
    using f assms(2) held
    by (auto simp: disposeRetain_def permanentRetain_dispose_def split_beta retain_dispose_entries
        retain_dispose_cache)
  show "environment (snd (disposeRetain a st)) =
     (if retainCount (entries st a) = 1
      then environment_release (the (retainDisposable (entries st a))) (environment st)
      else environment st)"
    using f assms(2) held
    by (auto simp: disposeRetain_def permanentRetain_dispose_def split_beta
        retain_dispose_environment)
qed

lemma disposeRetain_unheld:
  assumes "entry_ok (entries st a)"
    and "retainCount (entries st a) = 0"
  shows "fst (disposeRetain a st) =
     Inl (InvariantViolation ''Relay: Expected disposable to release query to be defined.'')"
    and "retainCount (entries (snd (disposeRetain a st)) a) = 0"
  using assms
  by (simp_all add: disposeRetain_def permanentRetain_dispose_def split_beta retain_dispose_fst
      retain_dispose_entries entry_ok_def)

lemma UserQuery_key [simp]:
  "prepareCacheKey browser UserQuery None None None = UserQuery_cacheKey"
  "cacheKey UserQuery_result = UserQuery_cacheKey"
  "operation UserQuery_result = UserQuery"
  by (simp_all add: prepareCacheKey_def getQueryCacheKey_def DEFAULT_FETCH_POLICY_def
      DEFAULT_RENDER_POLICY_def browser_def UserQuery_def getQueryResult_def UserQuery_cacheKey_def
      UserQuery_result_def)

lemma rendered_state:
  "entries rendered 0 =
      \<lparr>entry_cacheKey = UserQuery_cacheKey, entry_operation = UserQuery,
        currentValue = Result UserQuery_result,
        retainCount = 1, permanentlyRetained = False,
        retainDisposable = Some 0, releaseTemporaryRetain = Some 0\<rparr>"
  "map_of (cache rendered) UserQuery_cacheKey = Some 0"
  "timeouts rendered 0 = Some 0"
  "retains_ok rendered"
proof -
  let ?st = "createQueryResource (mockEnvironment True)"
  have al: "shouldAllowRender (case None of None \<Rightarrow> DEFAULT_FETCH_POLICY | Some p \<Rightarrow> p)
      (store_check (environment ?st) (root UserQuery) \<or>
       (case None of None \<Rightarrow> DEFAULT_RENDER_POLICY browser | Some p \<Rightarrow> p) = ''partial'')"
    by (simp add: shouldAllowRender_def DEFAULT_FETCH_POLICY_def)
  have miss: "map_of (cache ?st) (prepareCacheKey browser UserQuery None None None) = None"
    by simp
  have dom: "canUseDOM browser"
    by (simp add: browser_def)
  note r = prepare_first_render [OF miss al dom, of None]
  show "entries rendered 0 =
      \<lparr>entry_cacheKey = UserQuery_cacheKey, entry_operation = UserQuery,
        currentValue = Result UserQuery_result,
        retainCount = 1, permanentlyRetained = False,
        retainDisposable = Some 0, releaseTemporaryRetain = Some 0\<rparr>"
    using r(1) by (simp add: rendered_def UserQuery_result_def)
  show "map_of (cache rendered) UserQuery_cacheKey = Some 0"
    using r(2) by (simp add: rendered_def)
  show "timeouts rendered 0 = Some 0"
    using r(3) by (simp add: rendered_def)
  show "retains_ok rendered"
    unfolding rendered_def by (intro retains_ok_prepare retains_ok_createQueryResource)
qed

lemma committedTwice_state:
  "entries committedTwice 0 =
      \<lparr>entry_cacheKey = UserQuery_cacheKey, entry_operation = UserQuery,
        currentValue = Result UserQuery_result,
        retainCount = 2, permanentlyRetained = True,
        retainDisposable = Some 0, releaseTemporaryRetain = None\<rparr>"
  "retains_ok committedTwice"
proof -
  let ?s0 = "createQueryResource (mockEnvironment True)"
  let ?s1 = "snd (retain UserQuery_result ?s0)"
  have miss: "map_of (cache ?s0) (cacheKey UserQuery_result) = None"
    by simp
  note m = retain_miss_state [OF miss]
  have e1: "entries ?s1 0 =
      \<lparr>entry_cacheKey = UserQuery_cacheKey, entry_operation = UserQuery,
        currentValue = Result UserQuery_result,
        retainCount = 1, permanentlyRetained = True,
        retainDisposable = Some 0, releaseTemporaryRetain = None\<rparr>"
    using m(1) by simp
  have hit: "map_of (cache ?s1) (cacheKey UserQuery_result) = Some 0"
    using m(2) by simp
  have c: "0 \<le> retainCount (entries ?s1 0)"
    by (simp add: e1)
  show "entries committedTwice 0 =
      \<lparr>entry_cacheKey = UserQuery_cacheKey, entry_operation = UserQuery,
        currentValue = Result UserQuery_result,
        retainCount = 2, permanentlyRetained = True,
        retainDisposable = Some 0, releaseTemporaryRetain = None\<rparr>"
    by (simp add: committedTwice_def retain_hit(2) [OF hit c] permanentRetain_entries e1)
  show "retains_ok committedTwice"
    unfolding committedTwice_def by (intro retains_ok_run retains_ok_createQueryResource)
qed




lemma nestedFragmentUser_loadMore:
  "loadMore Forward 1 (Some 0) nestedFragmentUser =
     nestedFragmentUser
       \<lparr>inFlight :=
          Some \<lparr>request_direction = Forward,
                pagination_variables =
                  [(''id'', VString ''1''), (''after'', VString ''cursor:1''), (''first'', VInt 1),
                   (''before'', VNull), (''last'', VNull), (''isViewerFriendLocal'', VBool False),
                   (''orderby'', VList [VString ''name''])],
                request_onComplete = Some 0, request_waiting = []\<rparr>,
        fetches :=
          [[(''id'', VString ''1''), (''after'', VString ''cursor:1''), (''first'', VInt 1),
            (''before'', VNull), (''last'', VNull), (''isViewerFriendLocal'', VBool False),
            (''orderby'', VList [VString ''name''])]]\<rparr>"
  by (simp add: loadMore_def nestedFragmentUser_def nestedFragmentUserRef_def
      variablesNestedFragment_def hasMore_def currentCursor_def Let_def baseVariables_def
      fragmentVariables_def getPaginationVariables_def cursorArgument_def countArgument_def)


lemma allowed_or_fetches: "shouldAllowRender fp (full \<or> q) \<or> shouldFetch fp full"
  using not_allowed_fetches by blast

lemma fetchAndSaveQuery_finds_entry:
  "\<exists>a. fst (fetchAndSaveQuery key op evs fp rp ob st) = Inr a"
proof (cases "shouldFetch fp (store_check (environment st) (root op))")
  case True
  let ?st1 = "if shouldAllowRender fp (store_check (environment st) (root op) \<or> rp = ''partial'')
              then cacheResult op key st else st"
  show ?thesis
  proof (cases "map_of (cache (snd (subscribe key op evs ob ?st1))) key")
    case None
    with True show ?thesis
      by (simp add: fetchAndSaveQuery_def Let_def split_beta)
  next
    case (Some a)
    with True show ?thesis
      by (simp add: fetchAndSaveQuery_def Let_def split_beta)
  qed
next
  case False
  then have "shouldAllowRender fp (store_check (environment st) (root op) \<or> rp = ''partial'')"
    using allowed_or_fetches by blast
  with False show ?thesis
    by (simp add: fetchAndSaveQuery_def Let_def split_beta)
qed

lemma prepareEntry_finds_entry:
  "\<exists>a. fst (prepareEntry g op evs fp rp ob b st) = Inr a"
proof (cases "map_of (cache st) (prepareCacheKey g op fp rp b)")
  case None
  then show ?thesis
    by (simp add: prepareEntry_miss fetchAndSaveQuery_finds_entry)
next
  case (Some a)
  then show ?thesis
    by (simp add: prepareEntry_hit(1))
qed

lemma deliver_quiet:
  assumes "ev = Complete \<or>
      (ev = Next \<and> (\<forall>sub. subscriptions st s = Some sub \<longrightarrow>
         store_isMissingData (environment st) (fragment (sub_operation sub))))"
  shows "cache (deliver s ev st) = cache st"
    and "entries (deliver s ev st) = entries st"
    and "entryCount (deliver s ev st) = entryCount st"
    and "subscriptions (deliver s ev st) s = Some sub' \<Longrightarrow> subscriptions st s = Some sub'"
  using assms
  by (auto simp: deliver_def onNext_def onComplete_def Let_def fun_eq_iff split: option.splits)

lemma deliver_all_quiet:
  assumes "\<forall>ev \<in> set evs. ev = Complete \<or>
      (ev = Next \<and> store_isMissingData (environment st) (fragment op))"
    and "\<forall>sub. subscriptions st s = Some sub \<longrightarrow> sub_operation sub = op"
  shows "cache (foldl (\<lambda>st' ev. deliver s ev st') st evs) = cache st \<and>
     entries (foldl (\<lambda>st' ev. deliver s ev st') st evs) = entries st \<and>
     entryCount (foldl (\<lambda>st' ev. deliver s ev st') st evs) = entryCount st"
  using assms
proof (induction evs arbitrary: st)
  case Nil
  then show ?case by simp
next
  case (Cons ev evs)
  have q: "ev = Complete \<or>
      (ev = Next \<and> (\<forall>sub. subscriptions st s = Some sub \<longrightarrow>
         store_isMissingData (environment st) (fragment (sub_operation sub))))"
    using Cons.prems by auto
  note d = deliver_quiet [OF q]
  have rest: "\<forall>e \<in> set evs. e = Complete \<or>
      (e = Next \<and> store_isMissingData (environment (deliver s ev st)) (fragment op))"
    using Cons.prems(1) by simp
  have subs: "\<forall>sub. subscriptions (deliver s ev st) s = Some sub \<longrightarrow> sub_operation sub = op"
    using d(4) Cons.prems(2) by blast
  show ?case
    using Cons.IH [OF rest subs] d(1,2,3) by simp
qed

lemma subscribe_quiet:
  assumes "\<forall>ev \<in> set evs. ev = Complete \<or>
      (ev = Next \<and> store_isMissingData (environment st) (fragment op))"
  shows "cache (snd (subscribe k op evs ob st)) = cache st"
    and "entries (snd (subscribe k op evs ob st)) = entries st"
    and "entryCount (snd (subscribe k op evs ob st)) = entryCount st"
proof -
  let ?st1 = "observerCall ob ObsStart
      (st\<lparr>subscriptions := (subscriptions st)(subscribeCount st \<mapsto>
             \<lparr>sub_cacheKey = k, sub_operation = op, resolveNetworkPromise = None,
               sub_observer = ob\<rparr>),
          subscribeCount := subscribeCount st + 1\<rparr>)"
  have q: "\<forall>ev \<in> set evs. ev = Complete \<or>
      (ev = Next \<and> store_isMissingData (environment ?st1) (fragment op))"
    using assms by simp
  have subs: "\<forall>sub. subscriptions ?st1 (subscribeCount st) = Some sub \<longrightarrow> sub_operation sub = op"
    by simp
  note a = deliver_all_quiet [OF q subs]
  show "cache (snd (subscribe k op evs ob st)) = cache st"
    and "entries (snd (subscribe k op evs ob st)) = entries st"
    and "entryCount (snd (subscribe k op evs ob st)) = entryCount st"
    using a by (simp_all add: subscribe_def Let_def)
qed

lemma fetchAndSaveQuery_suspend_quiet:
  assumes "map_of (cache st) key = None"
    and "\<not> shouldAllowRender fp (store_check (environment st) (root op) \<or> rp = ''partial'')"
    and "\<forall>ev \<in> set evs. ev = Complete \<or>
      (ev = Next \<and> store_isMissingData (environment st) (fragment op))"
  shows "fst (fetchAndSaveQuery key op evs fp rp ob st) = Inr (entryCount st)"
    and "entries (snd (fetchAndSaveQuery key op evs fp rp ob st)) (entryCount st) =
          \<lparr>entry_cacheKey = key, entry_operation = op,
            currentValue = Promise (promiseCount st), retainCount = 0,
            permanentlyRetained = False, retainDisposable = None,
            releaseTemporaryRetain = None\<rparr>"
  using assms(1,2) not_allowed_fetches [of fp "store_check (environment st) (root op)" "rp = ''partial''"]
    subscribe_quiet [OF assms(3), of key ob]
  by (simp_all add: fetchAndSaveQuery_def Let_def split_beta split: option.split)

lemma prepare_suspend_quiet:
  assumes "map_of (cache st) (prepareCacheKey g op fp rp b) = None"
    and "\<not> shouldAllowRender (case fp of None \<Rightarrow> DEFAULT_FETCH_POLICY | Some p \<Rightarrow> p)
           (store_check (environment st) (root op) \<or>
            (case rp of None \<Rightarrow> DEFAULT_RENDER_POLICY g | Some p \<Rightarrow> p) = ''partial'')"
    and "\<forall>ev \<in> set evs. ev = Complete \<or>
      (ev = Next \<and> store_isMissingData (environment st) (fragment op))"
  shows "fst (prepare g op evs fp rp ob b st) = Inl (ThrowPromise (promiseCount st))"
proof -
  let ?key = "prepareCacheKey g op fp rp b"
  let ?fp = "case fp of None \<Rightarrow> DEFAULT_FETCH_POLICY | Some p \<Rightarrow> p"
  let ?rp = "case rp of None \<Rightarrow> DEFAULT_RENDER_POLICY g | Some p \<Rightarrow> p"
  let ?st0 = "snd (cache_get ?key st)"
  have miss0: "map_of (cache ?st0) ?key = None"
    using assms(1) by simp
  have al: "\<not> shouldAllowRender ?fp (store_check (environment ?st0) (root op) \<or> ?rp = ''partial'')"
    using assms(2) by simp
  have q: "\<forall>ev \<in> set evs. ev = Complete \<or>
      (ev = Next \<and> store_isMissingData (environment ?st0) (fragment op))"
    using assms(3) by simp
  have pe: "prepareEntry g op evs fp rp ob b st = fetchAndSaveQuery ?key op evs ?fp ?rp ob ?st0"
    by (rule prepareEntry_miss [OF assms(1)])
  have r: "fst (fetchAndSaveQuery ?key op evs ?fp ?rp ob ?st0) = Inr (entryCount st)"
    "entries (snd (fetchAndSaveQuery ?key op evs ?fp ?rp ob ?st0)) (entryCount st) =
       \<lparr>entry_cacheKey = ?key, entry_operation = op,
         currentValue = Promise (promiseCount st), retainCount = 0,
         permanentlyRetained = False, retainDisposable = None,
         releaseTemporaryRetain = None\<rparr>"
    using fetchAndSaveQuery_suspend_quiet [OF miss0 al q, of ob] by simp_all
  have "fst (temporaryRetain g (entryCount st) (snd (fetchAndSaveQuery ?key op evs ?fp ?rp ob ?st0))) = Inr ()"
    by (rule temporaryRetain_fst) (simp add: r(2))
  then show ?thesis
    by (simp add: prepare_def split_beta pe r throwOrReturn_def)
qed

lemma prepare_no_invariant_violation:
  assumes "retains_ok st"
  shows "fst (prepare g op evs fp rp ob b st) \<noteq> Inl (InvariantViolation msg)"
proof -
  obtain a where "fst (prepareEntry g op evs fp rp ob b st) = Inr a"
    using prepareEntry_finds_entry by blast
  then show ?thesis
    by (simp add: prepare_outcome [OF assms] throwOrReturn_def split: CacheValue.split)
qed

lemma prepare_defaults:
  "prepare g op evs fp rp ob b st =
     prepare g op evs
       (Some (case fp of None \<Rightarrow> ''store-or-network'' | Some p \<Rightarrow> p))
       (Some (case rp of
                None \<Rightarrow> (if ENABLE_PARTIAL_RENDERING_DEFAULT g then ''partial'' else ''full'')
              | Some p \<Rightarrow> p))
       ob b st"
  by (cases fp; cases rp)
    (simp_all add: prepare_def prepareEntry_def prepareCacheKey_def DEFAULT_FETCH_POLICY_def
      DEFAULT_RENDER_POLICY_def)

section \<open>Fetch policies\<close>



text \<open>
  The claim that a fetch policy outside the four names is rejected fails: with the store
  full and the policy \<^verbatim>\<open>cache-first\<close>,
  \<^verbatim>\<open>prepare\<close> raises no error of configuration; it fetches and
  throws the pending promise.
\<close>

theorem C7_unknown_policy_counterexample:
  "fst (prepare browser UserQuery [] (Some ''cache-first'') None None None
         (createQueryResource (mockEnvironment True))) = Inl (ThrowPromise 0)"
  using prepare_miss [of "createQueryResource (mockEnvironment True)" browser UserQuery
      "Some ''cache-first''" None None None]
  by (simp add: shouldAllowRender_def)

text \<open>
  C7, as the code has it. A fetch policy outside the four names raises no error: the
  \<^verbatim>\<open>switch\<close> decides for it as for \<^verbatim>\<open>network-only\<close>, to fetch and not to
  allow rendering from the store, and in a state that satisfies the invariant of the
  retain counts \<^verbatim>\<open>prepare\<close> throws no invariant failure. On a cache miss
  \<^verbatim>\<open>prepare\<close> issues a fetch, whatever the observable emits; when the observable
  emits, before \<^verbatim>\<open>subscribe\<close> returns, nothing but snapshots with missing data and
  completions (nothing at all, for one), \<^verbatim>\<open>prepare\<close> throws a new pending promise. A
  null or undefined fetch policy is \<^verbatim>\<open>store-or-network\<close>, and a null or undefined
  render policy is \<^verbatim>\<open>full\<close>, or \<^verbatim>\<open>partial\<close> when the feature flag is set,
  each whether or not the other argument is given.
\<close>

theorem C7_unknown_policy_is_network_only:
  assumes "fetchPolicy \<noteq> ''store-only''" and "fetchPolicy \<noteq> ''store-or-network''"
    and "fetchPolicy \<noteq> ''store-and-network''" and "fetchPolicy \<noteq> ''network-only''"
  shows
    "shouldFetch fetchPolicy hasFullQuery = shouldFetch ''network-only'' hasFullQuery \<and>
     shouldAllowRender fetchPolicy canPartialRender =
       shouldAllowRender ''network-only'' canPartialRender \<and>
     shouldFetch fetchPolicy hasFullQuery \<and>
     \<not> shouldAllowRender fetchPolicy canPartialRender \<and>
     (retains_ok st \<longrightarrow>
        (\<forall>msg. fst (prepare g op fetchObservable (Some fetchPolicy) maybeRenderPolicy observer
                      buster st) \<noteq> Inl (InvariantViolation msg))) \<and>
     (map_of (cache st) (prepareCacheKey g op (Some fetchPolicy) maybeRenderPolicy buster) = None \<longrightarrow>
        subscribeCount (snd (prepare g op fetchObservable (Some fetchPolicy) maybeRenderPolicy
           observer buster st)) = subscribeCount st + 1) \<and>
     (map_of (cache st) (prepareCacheKey g op (Some fetchPolicy) maybeRenderPolicy buster) = None \<longrightarrow>
      (\<forall>ev \<in> set fetchObservable.
          ev = Complete \<or> (ev = Next \<and> store_isMissingData (environment st) (fragment op))) \<longrightarrow>
        fst (prepare g op fetchObservable (Some fetchPolicy) maybeRenderPolicy observer buster st) =
          Inl (ThrowPromise (promiseCount st))) \<and>
     prepare g op fetchObservable maybeFetchPolicy' maybeRenderPolicy' observer buster st =
       prepare g op fetchObservable
         (Some (case maybeFetchPolicy' of None \<Rightarrow> ''store-or-network'' | Some p \<Rightarrow> p))
         (Some (case maybeRenderPolicy' of
                  None \<Rightarrow> (if ENABLE_PARTIAL_RENDERING_DEFAULT g then ''partial'' else ''full'')
                | Some p \<Rightarrow> p))
         observer buster st"
proof -
  have decide: "shouldFetch fetchPolicy h" "\<not> shouldAllowRender fetchPolicy c"
    "shouldFetch ''network-only'' h" "\<not> shouldAllowRender ''network-only'' c" for h c
    using assms by (simp_all add: shouldFetch_def shouldAllowRender_def)
  have count: "subscribeCount (snd (prepare g op fetchObservable (Some fetchPolicy) maybeRenderPolicy
           observer buster st)) = subscribeCount st + 1"
    if "map_of (cache st) (prepareCacheKey g op (Some fetchPolicy) maybeRenderPolicy buster) = None"
    using that by (simp add: prepare_subscribeCount decide)
  have suspend: "fst (prepare g op fetchObservable (Some fetchPolicy) maybeRenderPolicy observer
        buster st) = Inl (ThrowPromise (promiseCount st))"
    if miss: "map_of (cache st) (prepareCacheKey g op (Some fetchPolicy) maybeRenderPolicy buster) = None"
      and quiet: "\<forall>ev \<in> set fetchObservable.
          ev = Complete \<or> (ev = Next \<and> store_isMissingData (environment st) (fragment op))"
    by (rule prepare_suspend_quiet [OF miss _ quiet]) (simp add: decide)
  have never: "retains_ok st \<longrightarrow>
        (\<forall>msg. fst (prepare g op fetchObservable (Some fetchPolicy) maybeRenderPolicy observer
                      buster st) \<noteq> Inl (InvariantViolation msg))"
    using prepare_no_invariant_violation by blast
  have count': "map_of (cache st) (prepareCacheKey g op (Some fetchPolicy) maybeRenderPolicy buster) = None \<longrightarrow>
        subscribeCount (snd (prepare g op fetchObservable (Some fetchPolicy) maybeRenderPolicy
           observer buster st)) = subscribeCount st + 1"
    using count by blast
  have suspend': "map_of (cache st) (prepareCacheKey g op (Some fetchPolicy) maybeRenderPolicy buster) = None \<longrightarrow>
      (\<forall>ev \<in> set fetchObservable.
          ev = Complete \<or> (ev = Next \<and> store_isMissingData (environment st) (fragment op))) \<longrightarrow>
        fst (prepare g op fetchObservable (Some fetchPolicy) maybeRenderPolicy observer buster st) =
          Inl (ThrowPromise (promiseCount st))"
    using suspend by blast
  have same: "shouldFetch fetchPolicy hasFullQuery = shouldFetch ''network-only'' hasFullQuery"
    "shouldAllowRender fetchPolicy canPartialRender =
       shouldAllowRender ''network-only'' canPartialRender"
    using decide by simp_all
  show ?thesis
    by (intro conjI) (fact same decide never count' suspend' prepare_defaults)+
qed

theorem C7_unknown_policy_is_network_only_witness:
  "fst (prepare server UserQuery [Next, Complete] (Some ''store_only'') (Some ''partial'') None None
         (createQueryResource (mockEnvironment False))) = Inl (ThrowPromise 0) \<and>
   subscribeCount (snd (prepare server UserQuery [Next, Complete] (Some ''store_only'')
         (Some ''partial'') None None (createQueryResource (mockEnvironment False)))) = 1 \<and>
   prepare server UserQuery [Next, Complete] None (Some ''partial'') None None
         (createQueryResource (mockEnvironment False)) =
   prepare server UserQuery [Next, Complete] (Some ''store-or-network'') (Some ''partial'') None None
         (createQueryResource (mockEnvironment False))"
  using C7_unknown_policy_is_network_only [where fetchPolicy = "''store_only''"
      and st = "createQueryResource (mockEnvironment False)" and g = server and op = UserQuery
      and maybeRenderPolicy = "Some ''partial''" and buster = None and observer = None
      and fetchObservable = "[Next, Complete]" and maybeFetchPolicy' = None
      and maybeRenderPolicy' = "Some ''partial''"]
  by simp

section \<open>Server-side rendering\<close>

text \<open>
  C10. Where the DOM cannot be used, \<^verbatim>\<open>temporaryRetain\<close> returns
  at once and leaves the whole state as it was: no store retain, the same retain count,
  no timeout. What \<^verbatim>\<open>prepare\<close> returns or throws is the same as
  where the DOM can be used.
\<close>

theorem C10_server_temporaryRetain_noop:
  assumes "\<not> canUseDOM g"
  shows "temporaryRetain g a st = (Inr (), st) \<and>
     (retains_ok st \<longrightarrow>
        fst (prepare g op fetchObservable maybeFetchPolicy maybeRenderPolicy observer buster st) =
        fst (prepare (g\<lparr>canUseDOM := True\<rparr>) op fetchObservable maybeFetchPolicy maybeRenderPolicy
               observer buster st))"
proof -
  have "fst (prepare g op fetchObservable maybeFetchPolicy maybeRenderPolicy observer buster st) =
        fst (prepare (g\<lparr>canUseDOM := True\<rparr>) op fetchObservable maybeFetchPolicy maybeRenderPolicy
               observer buster st)"
    if "retains_ok st"
    by (simp only: prepare_outcome [OF that] prepareEntry_globals)
  then show ?thesis
    using assms by (simp add: temporaryRetain_server)
qed

theorem C10_server_temporaryRetain_noop_witness:
  "temporaryRetain server 0 (createQueryResource (mockEnvironment True)) =
     (Inr (), createQueryResource (mockEnvironment True)) \<and>
   fst (prepare server UserQuery [] None None None None (createQueryResource (mockEnvironment True))) =
   fst (prepare (server\<lparr>canUseDOM := True\<rparr>) UserQuery [] None None None None
          (createQueryResource (mockEnvironment True)))"
  using C10_server_temporaryRetain_noop [of server 0 "createQueryResource (mockEnvironment True)"
      UserQuery "[]" None None None None]
    retains_ok_createQueryResource [of "mockEnvironment True"]
  by (simp add: server_def)

section \<open>Suspending and resuming\<close>

text \<open>
  C2. \<^verbatim>\<open>prepare\<close> always finds or creates an entry: the invariant
  at the end of \<^verbatim>\<open>_fetchAndSaveQuery\<close> never fails. Whenever that
  entry holds a pending promise or an error, \<^verbatim>\<open>prepare\<close> throws
  that promise or that error, and a cached entry that holds a result has it returned.
  With the policy \<^verbatim>\<open>store-or-network\<close>, no entry under the key
  and the data of the operation full, \<^verbatim>\<open>prepare\<close> returns the
  result, whatever the fetch observable would emit. With the data not full and the
  render policy not \<^verbatim>\<open>partial\<close> it throws a new pending promise;
  once a \<^verbatim>\<open>next\<close> event arrives on that fetch with the data
  complete, the promise is resolved and \<^verbatim>\<open>prepare\<close> for the same
  key returns the result.
\<close>

theorem C2_prepare_throws_or_returns:
  assumes "retains_ok st"
  shows
    "(\<exists>a. fst (prepareEntry g op fetchObservable maybeFetchPolicy maybeRenderPolicy observer buster st) =
        Inr a) \<and>
     (\<forall>a p.
        fst (prepareEntry g op fetchObservable maybeFetchPolicy maybeRenderPolicy observer buster st) = Inr a \<longrightarrow>
        currentValue
          (entries (snd (prepareEntry g op fetchObservable maybeFetchPolicy maybeRenderPolicy observer
             buster st)) a) = Promise p \<longrightarrow>
        fst (prepare g op fetchObservable maybeFetchPolicy maybeRenderPolicy observer buster st) =
          Inl (ThrowPromise p)) \<and>
     (\<forall>a err.
        fst (prepareEntry g op fetchObservable maybeFetchPolicy maybeRenderPolicy observer buster st) = Inr a \<longrightarrow>
        currentValue
          (entries (snd (prepareEntry g op fetchObservable maybeFetchPolicy maybeRenderPolicy observer
             buster st)) a) = Error err \<longrightarrow>
        fst (prepare g op fetchObservable maybeFetchPolicy maybeRenderPolicy observer buster st) =
          Inl (ThrowError err)) \<and>
     (\<forall>a r.
        map_of (cache st) (prepareCacheKey g op maybeFetchPolicy maybeRenderPolicy buster) = Some a \<longrightarrow>
        currentValue (entries st a) = Result r \<longrightarrow>
        fst (prepare g op fetchObservable maybeFetchPolicy maybeRenderPolicy observer buster st) = Inr r) \<and>
     (map_of (cache st) (prepareCacheKey g op (Some ''store-or-network'') maybeRenderPolicy buster) = None \<longrightarrow>
      store_check (environment st) (root op) \<longrightarrow>
        fst (prepare g op fetchObservable (Some ''store-or-network'') maybeRenderPolicy observer buster st) =
          Inr (getQueryResult op
                 (prepareCacheKey g op (Some ''store-or-network'') maybeRenderPolicy buster))) \<and>
     (map_of (cache st) (prepareCacheKey g op (Some ''store-or-network'') maybeRenderPolicy buster) = None \<longrightarrow>
      \<not> store_check (environment st) (root op) \<longrightarrow>
      (case maybeRenderPolicy of None \<Rightarrow> DEFAULT_RENDER_POLICY g | Some p \<Rightarrow> p) \<noteq> ''partial'' \<longrightarrow>
      \<not> store_isMissingData env' (fragment op) \<longrightarrow>
        fst (prepare g op [] (Some ''store-or-network'') maybeRenderPolicy observer buster st) =
          Inl (ThrowPromise (promiseCount st)) \<and>
        resolved
          (deliver (subscribeCount st) Next
             ((snd (prepare g op [] (Some ''store-or-network'') maybeRenderPolicy observer buster st))
                \<lparr>environment := env'\<rparr>))
          (promiseCount st) \<and>
        fst (prepare g op fetchObservable (Some ''store-or-network'') maybeRenderPolicy observer' buster
               (deliver (subscribeCount st) Next
                  ((snd (prepare g op [] (Some ''store-or-network'') maybeRenderPolicy observer buster st))
                     \<lparr>environment := env'\<rparr>))) =
          Inr (getQueryResult op
                 (prepareCacheKey g op (Some ''store-or-network'') maybeRenderPolicy buster)))"
proof -
  let ?son = "Some ''store-or-network''"
  let ?key = "prepareCacheKey g op ?son maybeRenderPolicy buster"
  let ?rp = "case maybeRenderPolicy of None \<Rightarrow> DEFAULT_RENDER_POLICY g | Some p \<Rightarrow> p"
  have throws:
    "fst (prepare g op fetchObservable maybeFetchPolicy maybeRenderPolicy observer buster st) =
       throwOrReturn
         (currentValue
            (entries (snd (prepareEntry g op fetchObservable maybeFetchPolicy maybeRenderPolicy observer
               buster st)) a))"
    if "fst (prepareEntry g op fetchObservable maybeFetchPolicy maybeRenderPolicy observer buster st) = Inr a"
    for a
    using that by (simp add: prepare_outcome [OF assms])
  have cached:
    "fst (prepare g op fetchObservable maybeFetchPolicy maybeRenderPolicy observer buster st) = Inr r"
    if "map_of (cache st) (prepareCacheKey g op maybeFetchPolicy maybeRenderPolicy buster) = Some a"
      and "currentValue (entries st a) = Result r"
    for a r
    using prepare_hit [OF assms that(1), of fetchObservable observer] that(2)
    by (simp add: throwOrReturn_def)
  have full:
    "fst (prepare g op fetchObservable ?son maybeRenderPolicy observer buster st) =
       Inr (getQueryResult op ?key)"
    if "map_of (cache st) ?key = None" and "store_check (environment st) (root op)"
    using that by (simp add: prepare_store DEFAULT_FETCH_POLICY_def shouldFetch_def)
  have resolution:
    "fst (prepare g op [] ?son maybeRenderPolicy observer buster st) =
          Inl (ThrowPromise (promiseCount st)) \<and>
     resolved
          (deliver (subscribeCount st) Next
             ((snd (prepare g op [] ?son maybeRenderPolicy observer buster st))\<lparr>environment := env'\<rparr>))
          (promiseCount st) \<and>
     fst (prepare g op fetchObservable ?son maybeRenderPolicy observer' buster
               (deliver (subscribeCount st) Next
                  ((snd (prepare g op [] ?son maybeRenderPolicy observer buster st))
                     \<lparr>environment := env'\<rparr>))) =
          Inr (getQueryResult op ?key)"
    if miss: "map_of (cache st) ?key = None"
      and nf: "\<not> store_check (environment st) (root op)"
      and np: "?rp \<noteq> ''partial''"
      and data: "\<not> store_isMissingData env' (fragment op)"
  proof -
    let ?st1 = "snd (prepare g op [] ?son maybeRenderPolicy observer buster st)"
    let ?st1' = "?st1\<lparr>environment := env'\<rparr>"
    let ?sub = "\<lparr>sub_cacheKey = ?key, sub_operation = op,
                 resolveNetworkPromise = Some (promiseCount st), sub_observer = observer\<rparr>"
    let ?st2 = "deliver (subscribeCount st) Next ?st1'"
    have na: "\<not> shouldAllowRender (case ?son of None \<Rightarrow> DEFAULT_FETCH_POLICY | Some p \<Rightarrow> p)
           (store_check (environment st) (root op) \<or> ?rp = ''partial'')"
      using nf np by (simp add: shouldAllowRender_def)
    have thrown: "fst (prepare g op [] ?son maybeRenderPolicy observer buster st) =
          Inl (ThrowPromise (promiseCount st))"
      using prepare_miss [OF miss, of observer] na by simp
    have sub: "subscriptions ?st1' (subscribeCount st) = Some ?sub"
      using prepare_suspend_state(1) [OF miss na, of observer] by simp
    have hit: "map_of (cache ?st1') (sub_cacheKey ?sub) = Some (entryCount st)"
      using prepare_suspend_state(2) [OF miss na, of observer] by simp
    have data': "\<not> store_isMissingData (environment ?st1') (fragment (sub_operation ?sub))"
      using data by simp
    note d = deliver_next_complete_data [OF sub data' hit]
    have ok2: "retains_ok ?st2"
      by (intro retains_ok_deliver) (simp add: retains_ok_prepare [OF assms])
    have "fst (prepare g op fetchObservable ?son maybeRenderPolicy observer' buster ?st2) =
        throwOrReturn (currentValue (entries ?st2 (entryCount st)))"
      using d(1) by (intro prepare_hit [OF ok2]) simp
    then have again: "fst (prepare g op fetchObservable ?son maybeRenderPolicy observer' buster ?st2) =
        Inr (getQueryResult op ?key)"
      using d(2) by (simp add: throwOrReturn_def)
    have "resolved ?st2 (promiseCount st)"
      by (rule d(3)) simp
    with thrown again show ?thesis
      by simp
  qed
  show ?thesis
    using prepareEntry_finds_entry throws cached full resolution by (simp add: throwOrReturn_def)
qed

theorem C2_prepare_throws_or_returns_witness:
  "fst (prepare browser UserQuery [] None None None None (createQueryResource (mockEnvironment False))) =
     Inl (ThrowPromise 0) \<and>
   fst (prepare browser UserQuery [] (Some ''store-or-network'') None None None
          (createQueryResource (mockEnvironment True))) =
     Inr (getQueryResult UserQuery (prepareCacheKey browser UserQuery (Some ''store-or-network'') None None)) \<and>
   fst (prepare browser UserQuery [] (Some ''store-or-network'') None None None
          (deliver 0 Next
             ((snd (prepare browser UserQuery [] (Some ''store-or-network'') None None None
                      (createQueryResource (mockEnvironment False))))
                \<lparr>environment := mockEnvironment True\<rparr>))) =
     Inr (getQueryResult UserQuery (prepareCacheKey browser UserQuery (Some ''store-or-network'') None None))"
proof -
  have na: "\<not> shouldAllowRender (case None of None \<Rightarrow> DEFAULT_FETCH_POLICY | Some p \<Rightarrow> p)
      (store_check (environment (createQueryResource (mockEnvironment False))) (root UserQuery) \<or>
       (case None of None \<Rightarrow> DEFAULT_RENDER_POLICY browser | Some p \<Rightarrow> p) = ''partial'')"
    by (simp add: shouldAllowRender_def DEFAULT_FETCH_POLICY_def DEFAULT_RENDER_POLICY_def browser_def)
  have miss: "map_of (cache (createQueryResource (mockEnvironment False)))
      (prepareCacheKey browser UserQuery None None None) = None"
    by simp
  note v = prepare_suspend_value(1,2) [OF miss na, of None]
  have a: "fst (prepare browser UserQuery [] None None None None
      (createQueryResource (mockEnvironment False))) = Inl (ThrowPromise 0)"
    using C2_prepare_throws_or_returns [OF retains_ok_createQueryResource,
        of browser UserQuery "[]" None None None None "mockEnvironment False"] v
    by simp
  have b: "fst (prepare browser UserQuery [] (Some ''store-or-network'') None None None
          (createQueryResource (mockEnvironment True))) =
     Inr (getQueryResult UserQuery (prepareCacheKey browser UserQuery (Some ''store-or-network'') None None))"
    using C2_prepare_throws_or_returns [OF retains_ok_createQueryResource,
        of browser UserQuery "[]" None None None None "mockEnvironment True"]
    by simp
  have c: "fst (prepare browser UserQuery [] (Some ''store-or-network'') None None None
          (deliver 0 Next
             ((snd (prepare browser UserQuery [] (Some ''store-or-network'') None None None
                      (createQueryResource (mockEnvironment False))))
                \<lparr>environment := mockEnvironment True\<rparr>))) =
     Inr (getQueryResult UserQuery (prepareCacheKey browser UserQuery (Some ''store-or-network'') None None))"
    using C2_prepare_throws_or_returns [OF retains_ok_createQueryResource,
        of browser UserQuery "[]" None None None None "mockEnvironment False" "mockEnvironment True" None]
    by (simp add: DEFAULT_RENDER_POLICY_def browser_def)
  show ?thesis
    using a b c by simp
qed

text \<open>
  C3. An entry holds a pending promise and is the one cached under the key of an open
  fetch. A \<^verbatim>\<open>next\<close> event whose snapshot still misses data
  changes no entry, leaves the cache as it is and resolves no promise. The entry's value
  stops being that promise only on an error event or on a
  \<^verbatim>\<open>next\<close> event whose snapshot misses no data; the first stores
  the error and closes the fetch, so that no later event of it has an effect, the second
  stores the result. No event ever gives an entry a pending promise as its value, so an
  entry leaves the fetching state at most once.
\<close>

theorem C3_missing_data_keeps_fetching:
  assumes "subscriptions st s = Some sub"
    and "map_of (cache st) (sub_cacheKey sub) = Some a"
    and "currentValue (entries st a) = Promise p"
  shows
    "(store_isMissingData (environment st) (fragment (sub_operation sub)) \<longrightarrow>
        entries (deliver s Next st) = entries st \<and>
        cache (deliver s Next st) = cache st \<and>
        resolved (deliver s Next st) = resolved st) \<and>
     (\<forall>ev. currentValue (entries (deliver s ev st) a) \<noteq> Promise p \<longrightarrow>
        (\<exists>err. ev = NetError err) \<or>
        (ev = Next \<and> \<not> store_isMissingData (environment st) (fragment (sub_operation sub)))) \<and>
     (\<forall>err. currentValue (entries (deliver s (NetError err) st) a) = Error err \<and>
        (\<forall>ev. deliver s ev (deliver s (NetError err) st) = deliver s (NetError err) st)) \<and>
     (\<not> store_isMissingData (environment st) (fragment (sub_operation sub)) \<longrightarrow>
        currentValue (entries (deliver s Next st) a) =
          Result (getQueryResult (sub_operation sub) (sub_cacheKey sub))) \<and>
     (\<forall>s' ev st' b q. currentValue (entries (deliver s' ev st') b) = Promise q \<longrightarrow>
        currentValue (entries st' b) = Promise q)"
proof -
  have 1: "entries (deliver s Next st) = entries st \<and> cache (deliver s Next st) = cache st \<and>
      resolved (deliver s Next st) = resolved st"
    if "store_isMissingData (environment st) (fragment (sub_operation sub))"
    by (simp add: deliver_next_missing [OF assms(1) that] fun_eq_iff)
  have 2: "(\<exists>err. ev = NetError err) \<or>
        (ev = Next \<and> \<not> store_isMissingData (environment st) (fragment (sub_operation sub)))"
    if "currentValue (entries (deliver s ev st) a) \<noteq> Promise p" for ev
    using currentValue_deliver_changes [of s ev st a] that assms(1,3) by auto
  have 3: "currentValue (entries (deliver s (NetError err) st) a) = Error err \<and>
        (\<forall>ev. deliver s ev (deliver s (NetError err) st) = deliver s (NetError err) st)" for err
    using deliver_error(1,2) [OF assms(1,2), of err] by (simp add: deliver_closed)
  have 4: "currentValue (entries (deliver s Next st) a) =
          Result (getQueryResult (sub_operation sub) (sub_cacheKey sub))"
    if "\<not> store_isMissingData (environment st) (fragment (sub_operation sub))"
    by (rule deliver_next_complete_data(2) [OF assms(1) that assms(2)])
  show ?thesis
    using 1 2 3 4 deliver_no_new_promise by blast
qed

theorem C3_missing_data_keeps_fetching_witness:
  "entries (deliver 0 Next
      (snd (prepare browser UserQuery [] None None None None
              (createQueryResource (mockEnvironment False))))) =
   entries (snd (prepare browser UserQuery [] None None None None
              (createQueryResource (mockEnvironment False)))) \<and>
   currentValue (entries (deliver 0 (NetError ''Oops'')
      (snd (prepare browser UserQuery [] None None None None
              (createQueryResource (mockEnvironment False))))) 0) = Error ''Oops''"
proof -
  let ?st = "createQueryResource (mockEnvironment False)"
  let ?st1 = "snd (prepare browser UserQuery [] None None None None ?st)"
  have na: "\<not> shouldAllowRender (case None of None \<Rightarrow> DEFAULT_FETCH_POLICY | Some p \<Rightarrow> p)
      (store_check (environment ?st) (root UserQuery) \<or>
       (case None of None \<Rightarrow> DEFAULT_RENDER_POLICY browser | Some p \<Rightarrow> p) = ''partial'')"
    by (simp add: shouldAllowRender_def DEFAULT_FETCH_POLICY_def DEFAULT_RENDER_POLICY_def browser_def)
  have miss: "map_of (cache ?st) (prepareCacheKey browser UserQuery None None None) = None"
    by simp
  have sub: "subscriptions ?st1 0 =
      Some \<lparr>sub_cacheKey = prepareCacheKey browser UserQuery None None None,
            sub_operation = UserQuery, resolveNetworkPromise = Some 0, sub_observer = None\<rparr>"
    using prepare_suspend_state(1) [OF miss na, of None] by simp
  have hit: "map_of (cache ?st1)
      (sub_cacheKey \<lparr>sub_cacheKey = prepareCacheKey browser UserQuery None None None,
            sub_operation = UserQuery, resolveNetworkPromise = Some 0, sub_observer = None\<rparr>) = Some 0"
    using prepare_suspend_state(2) [OF miss na, of None] by simp
  have val: "currentValue (entries ?st1 0) = Promise 0"
    using prepare_suspend_value(3) [OF miss na, of None] by simp
  show ?thesis
    using C3_missing_data_keeps_fetching [OF sub hit val] by simp
qed

section \<open>Retaining at commit\<close>

text \<open>
  C9. When the cache has no entry under the key of the query result,
  \<^verbatim>\<open>retain\<close> returns normally with a new entry: it holds the
  result, is cached under that key, is permanently retained with a count of one and
  holds a store retain on the root of the operation. A later
  \<^verbatim>\<open>prepare\<close> whose arguments give the same key returns that
  result and issues no fetch. In every state that satisfies the invariant of the retain
  counts, \<^verbatim>\<open>retain\<close> returns normally.
\<close>

theorem C9_retain_recreates_entry:
  assumes "map_of (cache st) (cacheKey queryResult) = None"
  shows
    "fst (retain queryResult st) = Inr (entryCount st) \<and>
     entries (snd (retain queryResult st)) (entryCount st) =
       \<lparr>entry_cacheKey = cacheKey queryResult, entry_operation = operation queryResult,
         currentValue = Result queryResult, retainCount = 1, permanentlyRetained = True,
         retainDisposable = Some (store_retainCalls (environment st)),
         releaseTemporaryRetain = None\<rparr> \<and>
     map_of (cache (snd (retain queryResult st))) (cacheKey queryResult) = Some (entryCount st) \<and>
     store_retains (environment (snd (retain queryResult st))) (store_retainCalls (environment st)) =
       Some (root (operation queryResult)) \<and>
     (\<forall>g op fetchObservable maybeFetchPolicy maybeRenderPolicy observer buster.
        prepareCacheKey g op maybeFetchPolicy maybeRenderPolicy buster = cacheKey queryResult \<longrightarrow>
          fst (prepare g op fetchObservable maybeFetchPolicy maybeRenderPolicy observer buster
                 (snd (retain queryResult st))) = Inr queryResult \<and>
          subscribeCount (snd (prepare g op fetchObservable maybeFetchPolicy maybeRenderPolicy observer
                 buster (snd (retain queryResult st)))) = subscribeCount st) \<and>
     (\<forall>st' queryResult'. retains_ok st' \<longrightarrow> (\<exists>a. fst (retain queryResult' st') = Inr a))"
proof -
  note s = retain_miss_state [OF assms]
  have again:
    "fst (prepare g op evs fp rp ob b (snd (retain queryResult st))) = Inr queryResult \<and>
     subscribeCount (snd (prepare g op evs fp rp ob b (snd (retain queryResult st)))) = subscribeCount st"
    if "prepareCacheKey g op fp rp b = cacheKey queryResult" for g op evs fp rp ob b
  proof -
    have hit: "map_of (cache (snd (retain queryResult st))) (prepareCacheKey g op fp rp b) =
        Some (entryCount st)"
      using s(2) that by simp
    have "fst (prepare g op evs fp rp ob b (snd (retain queryResult st))) =
        throwOrReturn (currentValue (entries (snd (retain queryResult st)) (entryCount st)))"
      by (rule prepare_hit_permanent [OF hit]) (simp add: s(1))
    then show ?thesis
      using hit by (simp add: s(1,4) throwOrReturn_def prepare_subscribeCount)
  qed
  show ?thesis
    using retain_miss(1) [OF assms] s(1,2,3) again retain_succeeds by blast
qed

theorem C9_retain_recreates_entry_witness:
  "fst (retain (getQueryResult UserQuery ''store-or-network-full-UserQuery'')
          (createQueryResource (mockEnvironment True))) = Inr 0 \<and>
   fst (prepare browser UserQuery [] None None None None
          (snd (retain (getQueryResult UserQuery ''store-or-network-full-UserQuery'')
                  (createQueryResource (mockEnvironment True))))) =
     Inr (getQueryResult UserQuery ''store-or-network-full-UserQuery'')"
proof -
  have key: "prepareCacheKey browser UserQuery None None None =
      cacheKey (getQueryResult UserQuery ''store-or-network-full-UserQuery'')"
    by (simp add: prepareCacheKey_def getQueryCacheKey_def DEFAULT_FETCH_POLICY_def
        DEFAULT_RENDER_POLICY_def browser_def UserQuery_def getQueryResult_def)
  show ?thesis
    using C9_retain_recreates_entry [of "createQueryResource (mockEnvironment True)"
        "getQueryResult UserQuery ''store-or-network-full-UserQuery''"] key
    by simp
qed

text \<open>
  The claim that \<^verbatim>\<open>retain\<close> increments the retain count of the
  entry fails where a temporary retain is pending: after a first render in the browser
  the count is one, and after \<^verbatim>\<open>retain\<close> it is still one.
\<close>

theorem C4_retain_count_counterexample:
  "retainCount (entries rendered 0) = 1 \<and>
   map_of (cache rendered) (cacheKey UserQuery_result) = Some 0 \<and>
   retainCount (entries (snd (retain UserQuery_result rendered)) 0) = 1"
proof -
  have hit: "map_of (cache rendered) (cacheKey UserQuery_result) = Some 0"
    by (simp add: rendered_state)
  have c: "0 \<le> retainCount (entries rendered 0)"
    by (simp add: rendered_state)
  have "retainCount (entries (snd (retain UserQuery_result rendered)) 0) = 1"
    by (simp add: retain_hit(2) [OF hit c] permanentRetain_entries rendered_state)
  then show ?thesis
    using hit by (simp add: rendered_state)
qed

text \<open>
  C4, as the code has it. \<^verbatim>\<open>retain\<close> on a cached entry adds a
  permanent retain and releases the pending temporary one, if any: its timeout is
  cleared, and the count rises by one when no temporary retain was pending and is
  unchanged when one was. The store is asked for a retain exactly when the count was
  zero, and without a pending temporary retain the entry then holds that retain on the
  root of its operation. Disposing of the disposable while the count is positive
  decrements the count; from a count of one the store retain is released and the cache
  has no entry under the key any more, from a higher count the cache and the store stay
  as they are.
\<close>

theorem C4_retain_transfers_hold:
  assumes "retains_ok st"
    and "map_of (cache st) (cacheKey queryResult) = Some a"
    and "retains_ok st2"
    and "1 \<le> retainCount (entries st2 a2)"
  shows
    "fst (retain queryResult st) = Inr a \<and>
     (\<forall>t. releaseTemporaryRetain (entries st a) = Some t \<longrightarrow>
        timeouts (snd (retain queryResult st)) t = None) \<and>
     releaseTemporaryRetain (entries (snd (retain queryResult st)) a) = None \<and>
     permanentlyRetained (entries (snd (retain queryResult st)) a) \<and>
     retainCount (entries (snd (retain queryResult st)) a) =
       retainCount (entries st a) + (if releaseTemporaryRetain (entries st a) = None then 1 else 0) \<and>
     store_retainCalls (environment (snd (retain queryResult st))) =
       store_retainCalls (environment st) + (if retainCount (entries st a) = 0 then 1 else 0) \<and>
     (retainCount (entries st a) = 0 \<longrightarrow> releaseTemporaryRetain (entries st a) = None \<longrightarrow>
        retainDisposable (entries (snd (retain queryResult st)) a) =
          Some (store_retainCalls (environment st)) \<and>
        store_retains (environment (snd (retain queryResult st))) (store_retainCalls (environment st)) =
          Some (root (entry_operation (entries st a)))) \<and>
     fst (disposeRetain a2 st2) = Inr () \<and>
     retainCount (entries (snd (disposeRetain a2 st2)) a2) = retainCount (entries st2 a2) - 1 \<and>
     (retainCount (entries st2 a2) = 1 \<longrightarrow>
        retainDisposable (entries (snd (disposeRetain a2 st2)) a2) = None \<and>
        (\<exists>d. retainDisposable (entries st2 a2) = Some d \<and>
           store_retains (environment (snd (disposeRetain a2 st2))) d = None) \<and>
        map_of (cache (snd (disposeRetain a2 st2))) (entry_cacheKey (entries st2 a2)) = None) \<and>
     (1 < retainCount (entries st2 a2) \<longrightarrow>
        cache (snd (disposeRetain a2 st2)) = cache st2 \<and>
        environment (snd (disposeRetain a2 st2)) = environment st2)"
proof -
  let ?st0 = "snd (cache_get (cacheKey queryResult) st)"
  have c: "0 \<le> retainCount (entries st a)"
    using retains_okD [OF assms(1), of a] by (simp add: entry_ok_def)
  have c0: "0 \<le> retainCount (entries ?st0 a)"
    using c by simp
  note r = retain_hit [OF assms(2) c]
  have 1: "\<forall>t. releaseTemporaryRetain (entries st a) = Some t \<longrightarrow>
        timeouts (snd (retain queryResult st)) t = None"
    by (simp add: r(2) permanentRetain_timeouts [OF c0])
  have 2: "entries (snd (retain queryResult st)) a =
      (entries st a)
             \<lparr>retainCount :=
                retainCount (entries st a) +
                (if releaseTemporaryRetain (entries st a) = None then 1 else 0),
              permanentlyRetained := True,
              retainDisposable :=
                (if retainCount (entries st a) = 0
                 then (if releaseTemporaryRetain (entries st a) = None
                       then Some (store_retainCalls (environment st)) else None)
                 else retainDisposable (entries st a)),
              releaseTemporaryRetain := None\<rparr>"
    by (simp add: r(2) permanentRetain_entries [OF c0])
  have 3: "store_retainCalls (environment (snd (retain queryResult st))) =
       store_retainCalls (environment st) + (if retainCount (entries st a) = 0 then 1 else 0)"
    by (simp add: r(2) permanentRetain_store [OF c0])
  have 4: "store_retains (environment (snd (retain queryResult st))) (store_retainCalls (environment st)) =
          Some (root (entry_operation (entries st a)))"
    if "retainCount (entries st a) = 0" and "releaseTemporaryRetain (entries st a) = None"
    using permanentRetain_acquires(2) [of ?st0 a] that by (simp add: r(2))
  have ok2: "entry_ok (entries st2 a2)"
    by (rule retains_okD [OF assms(3)])
  note d = disposeRetain_held [OF ok2 assms(4)]
  have 5: "\<exists>d. retainDisposable (entries st2 a2) = Some d \<and>
           store_retains (environment (snd (disposeRetain a2 st2))) d = None"
    if one: "retainCount (entries st2 a2) = 1"
  proof -
    have "retainDisposable (entries st2 a2) \<noteq> None"
      using ok2 one by (simp add: entry_ok_def)
    then obtain d' where "retainDisposable (entries st2 a2) = Some d'"
      by blast
    then show ?thesis
      using one by (simp add: d(4) environment_release_def)
  qed
  show ?thesis
    using r(1) 1 2 3 4 5 d(1) by (simp add: d(2,3,4))
qed

theorem C4_retain_transfers_hold_witness:
  "fst (retain UserQuery_result rendered) = Inr 0 \<and>
   timeouts (snd (retain UserQuery_result rendered)) 0 = None \<and>
   retainCount (entries (snd (retain UserQuery_result rendered)) 0) = 1 \<and>
   fst (disposeRetain 0 (snd (retain UserQuery_result rendered))) = Inr () \<and>
   retainCount (entries (snd (disposeRetain 0 (snd (retain UserQuery_result rendered)))) 0) = 0 \<and>
   map_of (cache (snd (disposeRetain 0 (snd (retain UserQuery_result rendered))))) UserQuery_cacheKey = None"
proof -
  have hit: "map_of (cache rendered) (cacheKey UserQuery_result) = Some 0"
    by (simp add: rendered_state)
  have c: "0 \<le> retainCount (entries rendered 0)"
    by (simp add: rendered_state)
  have ok2: "retains_ok (snd (retain UserQuery_result rendered))"
    by (intro retains_ok_retain rendered_state)
  have e: "retainCount (entries (snd (retain UserQuery_result rendered)) 0) = 1"
    "entry_cacheKey (entries (snd (retain UserQuery_result rendered)) 0) = UserQuery_cacheKey"
    by (simp_all add: retain_hit(2) [OF hit c] permanentRetain_entries rendered_state)
  have one: "1 \<le> retainCount (entries (snd (retain UserQuery_result rendered)) 0)"
    by (simp add: e)
  show ?thesis
    using C4_retain_transfers_hold [OF rendered_state(4) hit ok2 one] e
    by (simp add: rendered_state)
qed

section \<open>Disposals without a retain\<close>

text \<open>
  The claim that a disposal without a matching retain fails loudly does not hold: after
  two calls of \<^verbatim>\<open>retain\<close>, disposing of the first disposable
  twice returns normally both times, and it is the disposal of the second disposable
  that fails.
\<close>

theorem C8_double_dispose_counterexample:
  "fst (disposeRetain 0 committedTwice) = Inr () \<and>
   fst (disposeRetain 0 (snd (disposeRetain 0 committedTwice))) = Inr () \<and>
   fst (disposeRetain 0 (snd (disposeRetain 0 (snd (disposeRetain 0 committedTwice))))) =
     Inl (InvariantViolation ''Relay: Expected disposable to release query to be defined.'')"
proof -
  let ?s3 = "snd (disposeRetain 0 committedTwice)"
  let ?s4 = "snd (disposeRetain 0 ?s3)"
  have ok2: "entry_ok (entries committedTwice 0)"
    by (simp add: committedTwice_state entry_ok_def)
  have two: "1 \<le> retainCount (entries committedTwice 0)"
    by (simp add: committedTwice_state)
  note d1 = disposeRetain_held(1,2) [OF ok2 two]
  have e3: "retainCount (entries ?s3 0) = 1" "retainDisposable (entries ?s3 0) = Some 0"
    by (simp_all add: d1(2) committedTwice_state)
  have ok3: "entry_ok (entries ?s3 0)"
    by (simp add: e3 entry_ok_def)
  have one: "1 \<le> retainCount (entries ?s3 0)"
    by (simp add: e3)
  note d2 = disposeRetain_held(1,2) [OF ok3 one]
  have e4: "retainCount (entries ?s4 0) = 0" "retainDisposable (entries ?s4 0) = None"
    by (simp_all add: d2(2) e3)
  have ok4: "entry_ok (entries ?s4 0)"
    by (simp add: e4 entry_ok_def)
  show ?thesis
    using d1(1) d2(1) disposeRetain_unheld(1) [OF ok4 e4(1)] by simp
qed

text \<open>
  C8, as the code has it. In every state that a resource reaches from its creation, no
  retain count is below zero. A disposal made while the count of the entry is zero
  fails with the invariant's message and leaves the count at zero; a disposal made
  while the count is positive returns normally and decrements it, whether or not the
  disposable was disposed of before, since a disposable has no state of its own.
\<close>

theorem C8_retain_count_never_negative:
  "0 \<le> retainCount (entries (run g acts (createQueryResource env)) a) \<and>
   (retainCount (entries (run g acts (createQueryResource env)) a) = 0 \<longrightarrow>
      fst (disposeRetain a (run g acts (createQueryResource env))) =
        Inl (InvariantViolation ''Relay: Expected disposable to release query to be defined.'') \<and>
      retainCount (entries (snd (disposeRetain a (run g acts (createQueryResource env)))) a) = 0) \<and>
   (1 \<le> retainCount (entries (run g acts (createQueryResource env)) a) \<longrightarrow>
      fst (disposeRetain a (run g acts (createQueryResource env))) = Inr () \<and>
      retainCount (entries (snd (disposeRetain a (run g acts (createQueryResource env)))) a) =
        retainCount (entries (run g acts (createQueryResource env)) a) - 1)"
proof -
  let ?st = "run g acts (createQueryResource env)"
  have "retains_ok ?st"
    by (intro retains_ok_run retains_ok_createQueryResource)
  then have ok: "entry_ok (entries ?st a)"
    by (rule retains_okD)
  have 1: "0 \<le> retainCount (entries ?st a)"
    using ok by (simp add: entry_ok_def)
  have 2: "fst (disposeRetain a ?st) =
        Inl (InvariantViolation ''Relay: Expected disposable to release query to be defined.'') \<and>
      retainCount (entries (snd (disposeRetain a ?st)) a) = 0"
    if "retainCount (entries ?st a) = 0"
    using disposeRetain_unheld [OF ok that] by simp
  have 3: "fst (disposeRetain a ?st) = Inr () \<and>
      retainCount (entries (snd (disposeRetain a ?st)) a) = retainCount (entries ?st a) - 1"
    if "1 \<le> retainCount (entries ?st a)"
    using disposeRetain_held(1,2) [OF ok that] by simp
  show ?thesis
    using 1 2 3 by blast
qed

theorem C8_retain_count_never_negative_witness:
  "retainCount (entries (run browser [Retain UserQuery_result, DisposeRetain 0]
      (createQueryResource (mockEnvironment True))) 0) = 0 \<and>
   fst (disposeRetain 0 (run browser [Retain UserQuery_result, DisposeRetain 0]
      (createQueryResource (mockEnvironment True)))) =
     Inl (InvariantViolation ''Relay: Expected disposable to release query to be defined.'')"
proof -
  let ?s0 = "createQueryResource (mockEnvironment True)"
  let ?s1 = "snd (retain UserQuery_result ?s0)"
  have miss: "map_of (cache ?s0) (cacheKey UserQuery_result) = None"
    by simp
  note m = retain_miss_state [OF miss]
  have e1: "retainCount (entries ?s1 0) = 1" "retainDisposable (entries ?s1 0) = Some 0"
    using m(1) by simp_all
  have ok1: "entry_ok (entries ?s1 0)"
    by (simp add: e1 entry_ok_def)
  have one: "1 \<le> retainCount (entries ?s1 0)"
    by (simp add: e1)
  have zero: "retainCount (entries (run browser [Retain UserQuery_result, DisposeRetain 0] ?s0) 0) = 0"
    by (simp add: disposeRetain_held(2) [OF ok1 one] e1)
  show ?thesis
    using C8_retain_count_never_negative [of browser "[Retain UserQuery_result, DisposeRetain 0]"
        "mockEnvironment True" 0] zero
    by simp
qed

section \<open>Pagination\<close>




text \<open>
  C6. When the fetch of the request in flight fails, the handler leaves the connection,
  and so the edge list, as it was, calls the callback of the request once with that
  error (the callbacks that waited for the request are called with no error), and
  clears the request: a render after it shows the connection instead of
  throwing, and later events of the fetch do nothing. The handler is a total function,
  so it has no way to throw.
\<close>

theorem C6_pagination_error_reported:
  assumes "inFlight c = Some req"
  shows
    "connection (fetchError err c) = connection c \<and>
     completions (fetchError err c) =
       completions c @
       (case request_onComplete req of None \<Rightarrow> [] | Some cb \<Rightarrow> [(cb, Some err)]) @
       map (\<lambda>cb. (cb, None)) (request_waiting req) \<and>
     inFlight (fetchError err c) = None \<and>
     render (fetchError err c) = Inr (connection c) \<and>
     fetchError err' (fetchError err c) = fetchError err c \<and>
     fetchComplete (fetchError err c) = fetchError err c \<and>
     fetchNext page (fetchError err c) = fetchError err c"
proof -
  have 1: "connection (fetchError err c) = connection c"
    and 2: "completions (fetchError err c) =
       completions c @
       (case request_onComplete req of None \<Rightarrow> [] | Some cb \<Rightarrow> [(cb, Some err)]) @
       map (\<lambda>cb. (cb, None)) (request_waiting req)"
    and 3: "inFlight (fetchError err c) = None"
    using assms by (simp_all add: fetchError_def invokeOnComplete_def split: option.split)
  have 4: "render (fetchError err c) = Inr (connection c)"
    using 1 3 by (simp add: render_def)
  have 5: "fetchError err' (fetchError err c) = fetchError err c"
    "fetchComplete (fetchError err c) = fetchError err c"
    "fetchNext page (fetchError err c) = fetchError err c"
    using 3 by (simp_all add: fetchError_def [of err'] fetchComplete_def fetchNext_def)
  show ?thesis
    using 1 2 3 4 5 by simp
qed

theorem C6_pagination_error_reported_witness:
  "connection (fetchError ''Oops'' (loadMore Forward 1 (Some 0) nestedFragmentUser)) =
     connection nestedFragmentUser \<and>
   completions (fetchError ''Oops'' (loadMore Forward 1 (Some 0) nestedFragmentUser)) =
     [(0, Some ''Oops'')] \<and>
   render (fetchError ''Oops'' (loadMore Forward 1 (Some 0) nestedFragmentUser)) =
     Inr (connection nestedFragmentUser)"
proof -
  let ?c = "loadMore Forward 1 (Some 0) nestedFragmentUser"
  let ?req = "\<lparr>request_direction = Forward,
      pagination_variables =
        [(''id'', VString ''1''), (''after'', VString ''cursor:1''), (''first'', VInt 1),
         (''before'', VNull), (''last'', VNull), (''isViewerFriendLocal'', VBool False),
         (''orderby'', VList [VString ''name''])],
      request_onComplete = Some 0, request_waiting = []\<rparr>"
  have f: "inFlight ?c = Some ?req"
    and k: "connection ?c = connection nestedFragmentUser"
    and e: "completions ?c = []"
    by (simp_all add: nestedFragmentUser_loadMore) (simp add: nestedFragmentUser_def)
  show ?thesis
    using C6_pagination_error_reported [OF f, of "''Oops''"] k e by simp
qed

end
